theory Spec2Isabelle
  imports Complex_Main "HOL-Library.Mapping"
begin

section \<open>Configuration (pkg/config/config.go)\<close>

text \<open>
  Go's \<open>int\<close> and \<open>int64\<close> are modelled as \<open>int\<close>: the functions below
  compare configuration values and count requests, and none of the properties stated here
  depends on what happens beyond \<open>2^63\<close>. \<open>time.Duration\<close> is an \<open>int64\<close> number of
  nanoseconds, \<open>time.Time\<close> a reading of the monotonic clock in nanoseconds. A Go
  \<open>string\<close> and a \<open>[]byte\<close> are lists of bytes, that is, \<open>string\<close>.
\<close>

type_synonym duration = int
type_synonym time = int

definition Second :: duration where
  "Second = 1000000000"

definition Microsecond :: duration where
  "Microsecond = 1000"

text \<open>Only the fields that the functions modelled here read are kept in each struct.\<close>

record TargetConfig =
  URL :: string

datatype LoadPattern = LoadPatternConstant | LoadPatternRampUp | LoadPatternBurst

record RampUpConfig =
  RampUp_Enabled :: bool
  StartConcurrency :: int
  EndConcurrency :: int
  RampUp_Duration :: duration
  Steps :: int

record LoadConfig =
  Concurrency :: int
  Duration :: duration
  TotalRequests :: int
  RateLimit :: int
  LoadPattern :: LoadPattern
  RampUp :: RampUpConfig

record ProtocolConfig =
  HTTP2Enabled :: bool
  HTTP3Enabled :: bool

record BodyValidation =
  MinSize :: int
  MaxSize :: int
  Contains :: "string list"
  NotContains :: "string list"

text \<open>
  \<open>HeaderValidation\<close> is a Go map; \<open>range\<close> visits its entries in an order that the
  language leaves open, so the field is the list of entries in the order of the visit.
\<close>

record ValidationConfig =
  StatusCodes :: "int list"
  ContentPatterns :: "string list"
  ResponseTimeMax :: duration
  HeaderValidation :: "(string \<times> string) list"
  BodyValidation :: BodyValidation

record DistributedConfig =
  Distributed_Enabled :: bool
  WorkerMode :: bool
  WorkerAddresses :: "string list"

record Config =
  Target :: TargetConfig
  Load :: LoadConfig
  Protocol :: ProtocolConfig
  Validation :: ValidationConfig
  Distributed :: DistributedConfig

text \<open>
  The errors of \<open>Config.Validate\<close>, one per \<open>fmt.Errorf\<close> of the source, in its order.
  Three packages have a \<open>New\<close>, a \<open>Validate\<close> or a \<open>Snapshot\<close> of their own: the
  functions are named \<open>Config_Validate\<close>, \<open>Validator_New\<close> and \<open>Collector_Snapshot\<close>
  here, and \<open>Validate\<close> is the validator's.
\<close>

datatype config_error =
    EmptyURL
  | ConcurrencyNotPositive
  | NoDurationNorTotal
  | BothHTTP2AndHTTP3
  | NoWorkerAddresses

definition Config_Validate :: "Config \<Rightarrow> config_error option" where
  "Config_Validate c =
     (if URL (Target c) = [] then Some EmptyURL
      else if Concurrency (Load c) \<le> 0 then Some ConcurrencyNotPositive
      else if Duration (Load c) \<le> 0 \<and> TotalRequests (Load c) \<le> 0 then Some NoDurationNorTotal
      else if HTTP2Enabled (Protocol c) \<and> HTTP3Enabled (Protocol c) then Some BothHTTP2AndHTTP3
      else if Distributed_Enabled (Distributed c) \<and> \<not> WorkerMode (Distributed c)
              \<and> length (WorkerAddresses (Distributed c)) = 0 then Some NoWorkerAddresses
      else None)"


section \<open>Validator (pkg/validator/validator.go)\<close>

text \<open>
  The validator calls three functions of Go's standard library whose code is not part of
  the repository: \<open>regexp.Compile\<close>, \<open>(*Regexp).Match\<close> with \<open>(*Regexp).String\<close>, and
  the canonical form of a header name used by \<open>http.Header.Get\<close>. They are parameters
  of the model: every theorem holds for any choice of them.
\<close>

record 're stdlib =
  regexp_Compile :: "string \<Rightarrow> 're option"
  regexp_Match :: "'re \<Rightarrow> string \<Rightarrow> bool"
  regexp_String :: "'re \<Rightarrow> string"
  CanonicalMIMEHeaderKey :: "string \<Rightarrow> string"

text \<open>\<open>bytes.Contains b sub\<close>: \<open>sub\<close> occurs in \<open>b\<close> as a contiguous run of bytes.\<close>

fun bytes_HasPrefix :: "string \<Rightarrow> string \<Rightarrow> bool" where
  "bytes_HasPrefix s [] = True"
| "bytes_HasPrefix [] (p # ps) = False"
| "bytes_HasPrefix (x # xs) (p # ps) = (x = p \<and> bytes_HasPrefix xs ps)"

fun bytes_Contains :: "string \<Rightarrow> string \<Rightarrow> bool" where
  "bytes_Contains [] sub = (sub = [])"
| "bytes_Contains (x # xs) sub = (bytes_HasPrefix (x # xs) sub \<or> bytes_Contains xs sub)"

record Response =
  StatusCode :: int
  Header :: "(string, string list) mapping"

text \<open>
  \<open>http.Header.Get\<close>: the first value stored under the canonical form of the key, the
  empty string when there is none.
\<close>

definition Header_Get :: "'re stdlib \<Rightarrow> (string, string list) mapping \<Rightarrow> string \<Rightarrow> string" where
  "Header_Get L h key =
     (case Mapping.lookup h (CanonicalMIMEHeaderKey L key) of
        None \<Rightarrow> []
      | Some [] \<Rightarrow> []
      | Some (v # vs) \<Rightarrow> v)"

text \<open>
  The message of a \<open>ValidationError\<close> is built by \<open>fmt.Sprintf\<close> from a fixed text and
  the values below; the model keeps the values and which text it is.
\<close>

datatype message =
    StatusNotAllowed int "int list"
  | HeaderMismatch string string string
  | BodyTooSmall int int
  | BodyTooLarge int int
  | MissingContent string
  | ForbiddenContent string
  | PatternMismatch string
  | ResponseTooSlow duration duration

record ValidationError =
  Type :: string
  Message :: message

record 're Validator =
  config :: ValidationConfig
  contentPatterns :: "'re list"
  statusCodeMap :: "(int, bool) mapping"

text \<open>The two loops of \<open>New\<close>: patterns that do not compile are skipped.\<close>

fun New_patterns :: "'re stdlib \<Rightarrow> string list \<Rightarrow> 're list \<Rightarrow> 're list" where
  "New_patterns L [] acc = acc"
| "New_patterns L (pattern # ps) acc =
     (case regexp_Compile L pattern of
        Some re \<Rightarrow> New_patterns L ps (acc @ [re])
      | None \<Rightarrow> New_patterns L ps acc)"

fun New_codes :: "int list \<Rightarrow> (int, bool) mapping \<Rightarrow> (int, bool) mapping" where
  "New_codes [] m = m"
| "New_codes (code # cs) m = New_codes cs (Mapping.update code True m)"

definition Validator_New :: "'re stdlib \<Rightarrow> ValidationConfig \<Rightarrow> 're Validator" where
  "Validator_New L cfg =
     \<lparr> config = cfg,
       contentPatterns = New_patterns L (ContentPatterns cfg) [],
       statusCodeMap = New_codes (StatusCodes cfg) Mapping.empty \<rparr>"

definition validateStatusCode :: "'re Validator \<Rightarrow> int \<Rightarrow> ValidationError option" where
  "validateStatusCode v code =
     (if Mapping.is_empty (statusCodeMap v) then None
      else if \<not> Mapping.lookup_default False (statusCodeMap v) code
        then Some \<lparr> Type = ''status_code'',
                    Message = StatusNotAllowed code (StatusCodes (config v)) \<rparr>
      else None)"

fun validateHeaders_loop ::
  "'re stdlib \<Rightarrow> (string \<times> string) list \<Rightarrow> (string, string list) mapping
     \<Rightarrow> ValidationError option" where
  "validateHeaders_loop L [] headers = None"
| "validateHeaders_loop L ((key, expectedValue) # rest) headers =
     (let actualValue = Header_Get L headers key in
      if actualValue \<noteq> expectedValue
        then Some \<lparr> Type = ''header'',
                    Message = HeaderMismatch key expectedValue actualValue \<rparr>
      else validateHeaders_loop L rest headers)"

definition validateHeaders ::
  "'re stdlib \<Rightarrow> 're Validator \<Rightarrow> (string, string list) mapping \<Rightarrow> ValidationError option" where
  "validateHeaders L v headers = validateHeaders_loop L (HeaderValidation (config v)) headers"

text \<open>The three loops of \<open>validateBody\<close>, each returning at its first failing entry.\<close>

fun validateBody_contains :: "string list \<Rightarrow> string \<Rightarrow> ValidationError option" where
  "validateBody_contains [] body = None"
| "validateBody_contains (content # cs) body =
     (if \<not> bytes_Contains body content
        then Some \<lparr> Type = ''body_content'', Message = MissingContent content \<rparr>
      else validateBody_contains cs body)"

fun validateBody_notContains :: "string list \<Rightarrow> string \<Rightarrow> ValidationError option" where
  "validateBody_notContains [] body = None"
| "validateBody_notContains (content # cs) body =
     (if bytes_Contains body content
        then Some \<lparr> Type = ''body_content'', Message = ForbiddenContent content \<rparr>
      else validateBody_notContains cs body)"

fun validateBody_patterns :: "'re stdlib \<Rightarrow> 're list \<Rightarrow> string \<Rightarrow> ValidationError option" where
  "validateBody_patterns L [] body = None"
| "validateBody_patterns L (pattern # ps) body =
     (if \<not> regexp_Match L pattern body
        then Some \<lparr> Type = ''content_pattern'',
                    Message = PatternMismatch (regexp_String L pattern) \<rparr>
      else validateBody_patterns L ps body)"

definition validateBody :: "'re stdlib \<Rightarrow> 're Validator \<Rightarrow> string \<Rightarrow> ValidationError option" where
  "validateBody L v body =
     (let bodyLen = int (length body);
          bv = BodyValidation (config v) in
      if MinSize bv > 0 \<and> bodyLen < MinSize bv
        then Some \<lparr> Type = ''body_size'', Message = BodyTooSmall bodyLen (MinSize bv) \<rparr>
      else if MaxSize bv > 0 \<and> bodyLen > MaxSize bv
        then Some \<lparr> Type = ''body_size'', Message = BodyTooLarge bodyLen (MaxSize bv) \<rparr>
      else
     (case validateBody_contains (Contains bv) body of
        Some err \<Rightarrow> Some err
      | None \<Rightarrow>
     (case validateBody_notContains (NotContains bv) body of
        Some err \<Rightarrow> Some err
      | None \<Rightarrow> validateBody_patterns L (contentPatterns v) body)))"

definition Validate ::
  "'re stdlib \<Rightarrow> 're Validator \<Rightarrow> Response \<Rightarrow> string \<Rightarrow> ValidationError option" where
  "Validate L v resp body =
     (case validateStatusCode v (StatusCode resp) of
        Some err \<Rightarrow> Some err
      | None \<Rightarrow>
     (case validateHeaders L v (Header resp) of
        Some err \<Rightarrow> Some err
      | None \<Rightarrow>
     (case validateBody L v body of
        Some err \<Rightarrow> Some err
      | None \<Rightarrow> None)))"

definition ValidateWithLatency ::
  "'re stdlib \<Rightarrow> 're Validator \<Rightarrow> Response \<Rightarrow> string \<Rightarrow> duration \<Rightarrow> ValidationError option" where
  "ValidateWithLatency L v resp body latency =
     (case Validate L v resp body of
        Some err \<Rightarrow> Some err
      | None \<Rightarrow>
        if ResponseTimeMax (config v) > 0 \<and> latency > ResponseTimeMax (config v)
          then Some \<lparr> Type = ''response_time'',
                      Message = ResponseTooSlow latency (ResponseTimeMax (config v)) \<rparr>
        else None)"


section \<open>Statistics collector (pkg/stats/collector.go)\<close>

text \<open>
  The latency histogram belongs to the library \<open>hdrhistogram-go\<close>, which is not part of
  the repository: its state is a value of an arbitrary type \<open>'h\<close> and its operations are
  parameters. \<open>float64\<close> values are modelled as \<open>real\<close>: a quotient is the exact
  quotient, without rounding.
\<close>

record 'h hdrhistogram =
  hdr_New :: "'h"
  hdr_RecordValue :: "'h \<Rightarrow> int \<Rightarrow> 'h"
  hdr_Reset :: "'h \<Rightarrow> 'h"
  hdr_Min :: "'h \<Rightarrow> int"
  hdr_Max :: "'h \<Rightarrow> int"
  hdr_Mean :: "'h \<Rightarrow> real"
  hdr_StdDev :: "'h \<Rightarrow> real"
  hdr_ValueAtQuantile :: "'h \<Rightarrow> real \<Rightarrow> int"

text \<open>Go's integer division truncates toward zero.\<close>

definition go_div :: "int \<Rightarrow> int \<Rightarrow> int" where
  "go_div a b = sgn a * sgn b * (\<bar>a\<bar> div \<bar>b\<bar>)"

text \<open>The conversion \<open>time.Duration(x)\<close> of a \<open>float64\<close> drops the fraction.\<close>

definition Duration_of_float :: "real \<Rightarrow> duration" where
  "Duration_of_float x = (if 0 \<le> x then \<lfloor>x\<rfloor> else \<lceil>x\<rceil>)"

definition Microseconds :: "duration \<Rightarrow> int" where
  "Microseconds d = go_div d 1000"

text \<open>
  \<open>Duration.Seconds\<close> is \<open>float64(d / Second) + float64(d % Second) / 1e9\<close>. The model
  takes the exact value. The only comparison made on it, \<open>duration < 1.0\<close>, has the same
  outcome on the \<open>float64\<close>: for \<open>d \<ge> Second\<close> the first summand is at least 1, and for
  \<open>d < Second\<close> the value is at most \<open>0.999999999\<close>, which rounds below 1.
\<close>

definition Seconds :: "duration \<Rightarrow> real" where
  "Seconds d = real_of_int d / 1000000000"

record TimePoint =
  Timestamp :: time
  RPS :: real
  AvgLatency :: duration
  ErrorRate :: real

record LatencyStats =
  L_Min :: duration
  L_Max :: duration
  L_Mean :: duration
  L_StdDev :: duration
  P50 :: duration
  P75 :: duration
  P90 :: duration
  P95 :: duration
  P99 :: duration
  P999 :: duration

record 'h Collector =
  totalRequests :: int
  successRequests :: int
  totalErrors :: int
  bytesReceived :: int
  bytesSent :: int
  latencyHistogram :: "'h"
  errorsByType :: "(string, int) mapping"
  statusCodes :: "(int, int) mapping"
  timeSeries :: "TimePoint list"
  lastSnapshot :: time
  startTime :: time

record Snapshot =
  S_TotalRequests :: int
  S_SuccessRequests :: int
  S_TotalErrors :: int
  S_BytesReceived :: int
  S_BytesSent :: int
  S_Latency :: LatencyStats
  S_AvgLatency :: duration
  S_P99Latency :: duration
  S_ErrorsByType :: "(string, int) mapping"
  S_StatusCodes :: "(int, int) mapping"
  S_Timestamp :: time

text \<open>
  \<open>NewCollector\<close> reads the clock twice, for \<open>startTime\<close> and then for \<open>lastSnapshot\<close>;
  the two readings are arguments. Every function that reads the clock takes its readings
  as arguments in the same way.
\<close>

definition NewCollector :: "'h hdrhistogram \<Rightarrow> time \<Rightarrow> time \<Rightarrow> 'h Collector" where
  "NewCollector H t0 t1 =
     \<lparr> totalRequests = 0, successRequests = 0, totalErrors = 0,
       bytesReceived = 0, bytesSent = 0,
       latencyHistogram = hdr_New H,
       errorsByType = Mapping.empty,
       statusCodes = Mapping.empty,
       timeSeries = [],
       lastSnapshot = t1,
       startTime = t0 \<rparr>"

definition RecordRequest ::
  "'h hdrhistogram \<Rightarrow> 'h Collector \<Rightarrow> duration \<Rightarrow> int \<Rightarrow> int \<Rightarrow> bool \<Rightarrow> 'h Collector" where
  "RecordRequest H c latency received sent success =
     (let c1 = c\<lparr> totalRequests := totalRequests c + 1 \<rparr>;
          c2 = (if success then c1\<lparr> successRequests := successRequests c1 + 1 \<rparr>
                else c1\<lparr> totalErrors := totalErrors c1 + 1 \<rparr>);
          c3 = c2\<lparr> bytesReceived := bytesReceived c2 + received \<rparr>;
          c4 = c3\<lparr> bytesSent := bytesSent c3 + sent \<rparr>
      in c4\<lparr> latencyHistogram := hdr_RecordValue H (latencyHistogram c4) (Microseconds latency) \<rparr>)"

text \<open>
  A counter of a map is created at zero on the first use of its key and then incremented.
\<close>

definition counter_Add :: "'k \<Rightarrow> ('k, int) mapping \<Rightarrow> ('k, int) mapping" where
  "counter_Add k m = Mapping.update k (Mapping.lookup_default 0 m k + 1) m"

definition RecordError :: "'h Collector \<Rightarrow> string \<Rightarrow> 'h Collector" where
  "RecordError c errorType =
     (let c1 = c\<lparr> totalErrors := totalErrors c + 1 \<rparr>
      in c1\<lparr> errorsByType := counter_Add errorType (errorsByType c1) \<rparr>)"

definition RecordStatusCode :: "'h Collector \<Rightarrow> int \<Rightarrow> 'h Collector" where
  "RecordStatusCode c code = c\<lparr> statusCodes := counter_Add code (statusCodes c) \<rparr>"

definition calculateLatencyStats :: "'h hdrhistogram \<Rightarrow> 'h Collector \<Rightarrow> LatencyStats" where
  "calculateLatencyStats H c =
     (let hist = latencyHistogram c in
      \<lparr> L_Min = hdr_Min H hist * Microsecond,
        L_Max = hdr_Max H hist * Microsecond,
        L_Mean = Duration_of_float (hdr_Mean H hist) * Microsecond,
        L_StdDev = Duration_of_float (hdr_StdDev H hist) * Microsecond,
        P50 = hdr_ValueAtQuantile H hist 50 * Microsecond,
        P75 = hdr_ValueAtQuantile H hist 75 * Microsecond,
        P90 = hdr_ValueAtQuantile H hist 90 * Microsecond,
        P95 = hdr_ValueAtQuantile H hist 95 * Microsecond,
        P99 = hdr_ValueAtQuantile H hist 99 * Microsecond,
        P999 = hdr_ValueAtQuantile H hist 99.9 * Microsecond \<rparr>)"

definition getLastTotalRequests :: "'h Collector \<Rightarrow> int" where
  "getLastTotalRequests c = (if length (timeSeries c) = 0 then 0 else 0)"

definition recordTimePoint :: "'h Collector \<Rightarrow> Snapshot \<Rightarrow> time \<Rightarrow> 'h Collector" where
  "recordTimePoint c snapshot now =
     (let duration = Seconds (now - lastSnapshot c) in
      if duration < 1 then c
      else
        let requestsDelta = S_TotalRequests snapshot - getLastTotalRequests c;
            rps = real_of_int requestsDelta / duration;
            errorRate = (if S_TotalRequests snapshot > 0
                         then real_of_int (S_TotalErrors snapshot)
                                / real_of_int (S_TotalRequests snapshot)
                         else 0);
            point = \<lparr> Timestamp = now, RPS = rps,
                      AvgLatency = S_AvgLatency snapshot, ErrorRate = errorRate \<rparr>
        in c\<lparr> timeSeries := timeSeries c @ [point], lastSnapshot := now \<rparr>)"

text \<open>
  \<open>Snapshot\<close> reads the clock for the snapshot's timestamp (\<open>ts\<close>) and again inside
  \<open>recordTimePoint\<close> (\<open>now\<close>). It returns the snapshot and the collector, whose time series
  may have grown.
\<close>

definition Collector_Snapshot ::
  "'h hdrhistogram \<Rightarrow> 'h Collector \<Rightarrow> time \<Rightarrow> time \<Rightarrow> Snapshot \<times> 'h Collector" where
  "Collector_Snapshot H c ts now =
     (let snapshot =
            \<lparr> S_TotalRequests = totalRequests c,
              S_SuccessRequests = successRequests c,
              S_TotalErrors = totalErrors c,
              S_BytesReceived = bytesReceived c,
              S_BytesSent = bytesSent c,
              S_Latency = calculateLatencyStats H c,
              S_AvgLatency = Duration_of_float (hdr_Mean H (latencyHistogram c)) * Microsecond,
              S_P99Latency = hdr_ValueAtQuantile H (latencyHistogram c) 99 * Microsecond,
              S_ErrorsByType = errorsByType c,
              S_StatusCodes = statusCodes c,
              S_Timestamp = ts \<rparr>
      in (snapshot, recordTimePoint c snapshot now))"

definition GetTimeSeries :: "'h Collector \<Rightarrow> TimePoint list" where
  "GetTimeSeries c = timeSeries c"

definition Reset :: "'h hdrhistogram \<Rightarrow> 'h Collector \<Rightarrow> time \<Rightarrow> time \<Rightarrow> 'h Collector" where
  "Reset H c t0 t1 =
     c\<lparr> totalRequests := 0, successRequests := 0, totalErrors := 0,
        bytesReceived := 0, bytesSent := 0,
        latencyHistogram := hdr_Reset H (latencyHistogram c),
        errorsByType := Mapping.empty,
        statusCodes := Mapping.empty,
        timeSeries := [],
        startTime := t0,
        lastSnapshot := t1 \<rparr>"


section \<open>Request executor (pkg/benchmark, executeRequest)\<close>

text \<open>
  One call of \<open>executeRequest\<close> asks three things of the outside world: the request built
  by \<open>createRequest\<close>, the response of \<open>client.Do\<close> and the body read by \<open>io.ReadAll\<close>.
  Each may fail (\<open>None\<close>). The answers and the latency, \<open>time.Since(startTime)\<close>, are
  the fields of an \<open>exchange\<close>; of the request only its \<open>ContentLength\<close> is used.
\<close>

record exchange =
  createRequest_result :: "int option"
  Do_result :: "Response option"
  ReadAll_result :: "string option"
  Since_startTime :: duration

definition executeRequest ::
  "'re stdlib \<Rightarrow> 'h hdrhistogram \<Rightarrow> 're Validator \<Rightarrow> 'h Collector \<Rightarrow> exchange \<Rightarrow> 'h Collector" where
  "executeRequest L H v c x =
     (case createRequest_result x of
        None \<Rightarrow> RecordError c ''request_creation''
      | Some contentLength \<Rightarrow>
     (case Do_result x of
        None \<Rightarrow> RecordRequest H (RecordError c ''network'') (Since_startTime x) 0 0 False
      | Some resp \<Rightarrow>
     (case ReadAll_result x of
        None \<Rightarrow> RecordRequest H (RecordError c ''body_read'') (Since_startTime x) 0 0 False
      | Some body \<Rightarrow>
          let validationErr = Validate L v resp body;
              success = (validationErr = None);
              c1 = (if \<not> success then RecordError c ''validation'' else c);
              c2 = RecordRequest H c1 (Since_startTime x) (int (length body)) contentLength
                     success
          in RecordStatusCode c2 (StatusCode resp))))"


section \<open>Ramp-up controller (pkg/benchmark, runRampUp)\<close>

text \<open>
  The controller goroutine of \<open>runRampUp\<close> activates a waiting worker by sending its index
  on the channel \<open>workerControl\<close>. Its state is the variable \<open>currentConcurrency\<close> and
  the indices sent so far. \<open>ctx.Err()\<close> is read before each step: \<open>cancelled step\<close> says
  whether the context was already cancelled at that reading.
\<close>

record ramp_state =
  currentConcurrency :: int
  activated :: "int list"

datatype ramp_result =
    RunsConstant
  | Panics string
  | Blocks ramp_state
  | Ramped ramp_state

text \<open>
  The channel \<open>workerControl\<close> has \<open>EndConcurrency\<close> slots, and each of the
  \<open>EndConcurrency\<close> workers takes one index from it: \<open>2 * EndConcurrency\<close> sends go
  through and the next one blocks for ever. \<open>send_workerControl\<close> sends the indices \<open>ids\<close>
  after those already sent and says whether the controller is left blocked in a send.
\<close>

definition send_workerControl :: "RampUpConfig \<Rightarrow> int list \<Rightarrow> int list \<Rightarrow> int list \<times> bool" where
  "send_workerControl rampCfg sent ids =
     (let room = nat (2 * EndConcurrency rampCfg - int (length sent)) in
      if length ids \<le> room then (sent @ ids, False)
      else (sent @ take room ids, True))"

text \<open>
  One step of the loop after the tick: the new concurrency, capped, and the activation of the
  workers from the current to the new concurrency. A step that blocks in a send never
  assigns \<open>currentConcurrency\<close>.
\<close>

definition ramp_step :: "RampUpConfig \<Rightarrow> int \<Rightarrow> ramp_state \<Rightarrow> ramp_state \<times> bool" where
  "ramp_step rampCfg concurrencyStep st =
     (let newConcurrency0 = currentConcurrency st + concurrencyStep;
          newConcurrency = (if newConcurrency0 > EndConcurrency rampCfg
                            then EndConcurrency rampCfg else newConcurrency0);
          (sent, blocked) =
            send_workerControl rampCfg (activated st)
              [currentConcurrency st .. newConcurrency - 1]
      in if blocked then (st\<lparr> activated := sent \<rparr>, True)
         else (\<lparr> currentConcurrency = newConcurrency, activated = sent \<rparr>, False))"

text \<open>
  The loop \<open>for step := 0; step < Steps && ctx.Err() == nil; step++\<close>, with \<open>n\<close> the
  number of values of \<open>step\<close> still below \<open>Steps\<close>. The result says whether the
  controller is left blocked in a send.
\<close>

fun ramp_loop ::
  "(nat \<Rightarrow> bool) \<Rightarrow> RampUpConfig \<Rightarrow> int \<Rightarrow> nat \<Rightarrow> nat \<Rightarrow> ramp_state \<Rightarrow> ramp_state \<times> bool" where
  "ramp_loop cancelled rampCfg concurrencyStep step 0 st = (st, False)"
| "ramp_loop cancelled rampCfg concurrencyStep step (Suc n) st =
     (if cancelled step then (st, False)
      else
        let (st', blocked) = ramp_step rampCfg concurrencyStep st in
        if blocked then (st', True)
        else ramp_loop cancelled rampCfg concurrencyStep (Suc step) n st')"

text \<open>
  \<open>runRampUp\<close> up to the end of the controller's loop. A division by zero panics, as do
  \<open>make\<close> of a channel of negative size and \<open>time.NewTicker\<close> of an interval that is not
  positive; the ticker is made after the initial activation.
\<close>

definition runRampUp :: "(nat \<Rightarrow> bool) \<Rightarrow> RampUpConfig \<Rightarrow> ramp_result" where
  "runRampUp cancelled rampCfg =
     (if \<not> RampUp_Enabled rampCfg then RunsConstant
      else if Steps rampCfg = 0 then Panics ''integer divide by zero''
      else
        let stepDuration = go_div (RampUp_Duration rampCfg) (Steps rampCfg);
            concurrencyStep =
              go_div (EndConcurrency rampCfg - StartConcurrency rampCfg) (Steps rampCfg)
        in
        if EndConcurrency rampCfg < 0 then Panics ''makechan: size out of range''
        else
          let (sent, blocked) =
                send_workerControl rampCfg [] [0 .. StartConcurrency rampCfg - 1];
              st0 = \<lparr> currentConcurrency = StartConcurrency rampCfg, activated = sent \<rparr>
          in
          if blocked then Blocks st0
          else if stepDuration \<le> 0 then Panics ''non-positive interval for NewTicker''
          else
            let (st, blocked) =
                  ramp_loop cancelled rampCfg concurrencyStep 0 (nat (Steps rampCfg)) st0
            in if blocked then Blocks st else Ramped st)"

text \<open>The number of workers activated by a run of the controller.\<close>

definition activated_count :: "ramp_result \<Rightarrow> int option" where
  "activated_count r =
     (case r of Ramped st \<Rightarrow> Some (int (length (activated st))) | _ \<Rightarrow> None)"


section \<open>Rate limiter and request generator (pkg/benchmark)\<close>



record RateLimiter =
  rps :: int
  interval :: duration
  ticker :: duration
















section \<open>The validator's checks, in the words of the specification\<close>

text \<open>
  The specification lists the checks of the validator in a fixed order. Each check is
  stated here on the configuration alone, apart from the code of the validator: a check that
  is not configured passes. \<open>first_failure\<close> walks a list of named checks and names the
  first that fails.
\<close>

definition spec_status_ok :: "ValidationConfig \<Rightarrow> int \<Rightarrow> bool" where
  "spec_status_ok cfg code \<longleftrightarrow> StatusCodes cfg = [] \<or> code \<in> set (StatusCodes cfg)"

definition spec_headers_ok ::
  "'re stdlib \<Rightarrow> ValidationConfig \<Rightarrow> (string, string list) mapping \<Rightarrow> bool" where
  "spec_headers_ok L cfg h \<longleftrightarrow>
     (\<forall>(name, expected) \<in> set (HeaderValidation cfg). Header_Get L h name = expected)"

definition spec_size_ok :: "ValidationConfig \<Rightarrow> string \<Rightarrow> bool" where
  "spec_size_ok cfg body \<longleftrightarrow>
     (MinSize (BodyValidation cfg) > 0 \<longrightarrow> MinSize (BodyValidation cfg) \<le> int (length body))
     \<and> (MaxSize (BodyValidation cfg) > 0 \<longrightarrow> int (length body) \<le> MaxSize (BodyValidation cfg))"

definition spec_required_ok :: "ValidationConfig \<Rightarrow> string \<Rightarrow> bool" where
  "spec_required_ok cfg body \<longleftrightarrow>
     (\<forall>content \<in> set (Contains (BodyValidation cfg)). bytes_Contains body content)"

definition spec_forbidden_ok :: "ValidationConfig \<Rightarrow> string \<Rightarrow> bool" where
  "spec_forbidden_ok cfg body \<longleftrightarrow>
     (\<forall>content \<in> set (NotContains (BodyValidation cfg)). \<not> bytes_Contains body content)"

definition spec_patterns_ok :: "'re stdlib \<Rightarrow> ValidationConfig \<Rightarrow> string \<Rightarrow> bool" where
  "spec_patterns_ok L cfg body \<longleftrightarrow>
     (\<forall>pattern \<in> set (ContentPatterns cfg).
        case regexp_Compile L pattern of None \<Rightarrow> True | Some re \<Rightarrow> regexp_Match L re body)"

definition spec_latency_ok :: "ValidationConfig \<Rightarrow> duration \<Rightarrow> bool" where
  "spec_latency_ok cfg lat \<longleftrightarrow>
     (ResponseTimeMax cfg > 0 \<longrightarrow> lat \<le> ResponseTimeMax cfg)"

fun first_failure :: "(string \<times> bool) list \<Rightarrow> string option" where
  "first_failure [] = None"
| "first_failure ((kind, ok) # rest) = (if ok then first_failure rest else Some kind)"

definition spec_checks ::
  "'re stdlib \<Rightarrow> ValidationConfig \<Rightarrow> Response \<Rightarrow> string \<Rightarrow> (string \<times> bool) list" where
  "spec_checks L cfg resp body =
     [(''status_code'', spec_status_ok cfg (StatusCode resp)),
      (''header'', spec_headers_ok L cfg (Header resp)),
      (''body_size'', spec_size_ok cfg body),
      (''body_content'', spec_required_ok cfg body),
      (''body_content'', spec_forbidden_ok cfg body),
      (''content_pattern'', spec_patterns_ok L cfg body)]"

definition spec_Validate ::
  "'re stdlib \<Rightarrow> ValidationConfig \<Rightarrow> Response \<Rightarrow> string \<Rightarrow> string option" where
  "spec_Validate L cfg resp body = first_failure (spec_checks L cfg resp body)"

definition spec_ValidateWithLatency ::
  "'re stdlib \<Rightarrow> ValidationConfig \<Rightarrow> Response \<Rightarrow> string \<Rightarrow> duration \<Rightarrow> string option" where
  "spec_ValidateWithLatency L cfg resp body lat =
     first_failure (spec_checks L cfg resp body @ [(''response_time'', spec_latency_ok cfg lat)])"


text \<open>
  The same checks with the error each reports. A check over a list reports its first
  offending entry, found with \<open>find\<close>; the patterns are those that compile, in the order of
  the configuration. \<open>first_error\<close> takes the first error of a list of outcomes.
\<close>

definition spec_status_error :: "ValidationConfig \<Rightarrow> int \<Rightarrow> ValidationError option" where
  "spec_status_error cfg code =
     (if spec_status_ok cfg code then None
      else Some \<lparr> Type = ''status_code'', Message = StatusNotAllowed code (StatusCodes cfg) \<rparr>)"

definition spec_headers_error ::
  "'re stdlib \<Rightarrow> ValidationConfig \<Rightarrow> (string, string list) mapping \<Rightarrow> ValidationError option" where
  "spec_headers_error L cfg h =
     map_option
       (\<lambda>(name, expected).
          \<lparr> Type = ''header'', Message = HeaderMismatch name expected (Header_Get L h name) \<rparr>)
       (find (\<lambda>(name, expected). Header_Get L h name \<noteq> expected) (HeaderValidation cfg))"

definition spec_size_error :: "ValidationConfig \<Rightarrow> string \<Rightarrow> ValidationError option" where
  "spec_size_error cfg body =
     (if MinSize (BodyValidation cfg) > 0 \<and> int (length body) < MinSize (BodyValidation cfg)
        then Some \<lparr> Type = ''body_size'',
                    Message = BodyTooSmall (int (length body)) (MinSize (BodyValidation cfg)) \<rparr>
      else if MaxSize (BodyValidation cfg) > 0 \<and> int (length body) > MaxSize (BodyValidation cfg)
        then Some \<lparr> Type = ''body_size'',
                    Message = BodyTooLarge (int (length body)) (MaxSize (BodyValidation cfg)) \<rparr>
      else None)"

definition spec_required_error :: "ValidationConfig \<Rightarrow> string \<Rightarrow> ValidationError option" where
  "spec_required_error cfg body =
     map_option (\<lambda>content. \<lparr> Type = ''body_content'', Message = MissingContent content \<rparr>)
       (find (\<lambda>content. \<not> bytes_Contains body content) (Contains (BodyValidation cfg)))"

definition spec_forbidden_error :: "ValidationConfig \<Rightarrow> string \<Rightarrow> ValidationError option" where
  "spec_forbidden_error cfg body =
     map_option (\<lambda>content. \<lparr> Type = ''body_content'', Message = ForbiddenContent content \<rparr>)
       (find (\<lambda>content. bytes_Contains body content) (NotContains (BodyValidation cfg)))"

definition spec_patterns_error ::
  "'re stdlib \<Rightarrow> ValidationConfig \<Rightarrow> string \<Rightarrow> ValidationError option" where
  "spec_patterns_error L cfg body =
     map_option
       (\<lambda>re. \<lparr> Type = ''content_pattern'', Message = PatternMismatch (regexp_String L re) \<rparr>)
       (find (\<lambda>re. \<not> regexp_Match L re body)
          (List.map_filter (regexp_Compile L) (ContentPatterns cfg)))"

definition spec_latency_error :: "ValidationConfig \<Rightarrow> duration \<Rightarrow> ValidationError option" where
  "spec_latency_error cfg lat =
     (if spec_latency_ok cfg lat then None
      else Some \<lparr> Type = ''response_time'',
                  Message = ResponseTooSlow lat (ResponseTimeMax cfg) \<rparr>)"

fun first_error :: "ValidationError option list \<Rightarrow> ValidationError option" where
  "first_error [] = None"
| "first_error (None # rest) = first_error rest"
| "first_error (Some err # rest) = Some err"

definition spec_errors ::
  "'re stdlib \<Rightarrow> ValidationConfig \<Rightarrow> Response \<Rightarrow> string \<Rightarrow> ValidationError option list" where
  "spec_errors L cfg resp body =
     [spec_status_error cfg (StatusCode resp),
      spec_headers_error L cfg (Header resp),
      spec_size_error cfg body,
      spec_required_error cfg body,
      spec_forbidden_error cfg body,
      spec_patterns_error L cfg body]"


section \<open>Sequences of calls on a collector\<close>

text \<open>
  A collector is reached from \<open>NewCollector\<close> by calls of its exported methods. The calls
  are taken one after the other, each running to its end before the next begins.
\<close>

datatype collector_call =
    CallRecordRequest duration int int bool
  | CallRecordError string
  | CallRecordStatusCode int
  | CallSnapshot time time
  | CallReset time time

fun call :: "'h hdrhistogram \<Rightarrow> 'h Collector \<Rightarrow> collector_call \<Rightarrow> 'h Collector" where
  "call H c (CallRecordRequest lat received sent success) =
     RecordRequest H c lat received sent success"
| "call H c (CallRecordError errorType) = RecordError c errorType"
| "call H c (CallRecordStatusCode code) = RecordStatusCode c code"
| "call H c (CallSnapshot ts now) = snd (Collector_Snapshot H c ts now)"
| "call H c (CallReset t0 t1) = Reset H c t0 t1"

fun calls :: "'h hdrhistogram \<Rightarrow> 'h Collector \<Rightarrow> collector_call list \<Rightarrow> 'h Collector" where
  "calls H c [] = c"
| "calls H c (k # ks) = calls H (call H c k) ks"

text \<open>
  The time from which the first point of the series is counted: the second clock reading
  of \<open>NewCollector\<close>, or of the last \<open>Reset\<close>.
\<close>

fun epoch :: "time \<Rightarrow> collector_call list \<Rightarrow> time" where
  "epoch t [] = t"
| "epoch t (CallReset t0 t1 # ks) = epoch t1 ks"
| "epoch t (k # ks) = epoch t ks"

text \<open>Consecutive points of a time series are at least one second apart.\<close>

fun spaced :: "TimePoint list \<Rightarrow> bool" where
  "spaced (p # q # ps) \<longleftrightarrow> Timestamp q - Timestamp p \<ge> Second \<and> spaced (q # ps)"
| "spaced ps \<longleftrightarrow> True"


text \<open>
  \<open>recordTimePoint\<close> holds no lock from its read of \<open>lastSnapshot\<close> to its write of it;
  \<open>Snapshot\<close> is called from the monitor goroutine and from \<open>generateResults\<close>, which
  runs while the monitor is still alive. The function is cut here at the test: the first
  half reads \<open>lastSnapshot\<close> and decides, the second half appends the point and writes
  \<open>lastSnapshot\<close>. \<open>overlapping_Snapshots\<close> runs two calls of \<open>Snapshot\<close> of which the
  second reads \<open>lastSnapshot\<close> before the first has written it.
\<close>

definition recordTimePoint_check :: "'h Collector \<Rightarrow> time \<Rightarrow> real option" where
  "recordTimePoint_check c now =
     (let duration = Seconds (now - lastSnapshot c) in
      if duration < 1 then None else Some duration)"

definition recordTimePoint_commit ::
  "'h Collector \<Rightarrow> Snapshot \<Rightarrow> time \<Rightarrow> real \<Rightarrow> 'h Collector" where
  "recordTimePoint_commit c snapshot now duration =
     (let requestsDelta = S_TotalRequests snapshot - getLastTotalRequests c;
          rate = real_of_int requestsDelta / duration;
          errorRate = (if S_TotalRequests snapshot > 0
                       then real_of_int (S_TotalErrors snapshot)
                              / real_of_int (S_TotalRequests snapshot)
                       else 0);
          point = \<lparr> Timestamp = now, RPS = rate,
                    AvgLatency = S_AvgLatency snapshot, ErrorRate = errorRate \<rparr>
      in c\<lparr> timeSeries := timeSeries c @ [point], lastSnapshot := now \<rparr>)"

definition overlapping_Snapshots ::
  "'h hdrhistogram \<Rightarrow> 'h Collector \<Rightarrow> time \<Rightarrow> time \<Rightarrow> time \<Rightarrow> time \<Rightarrow> 'h Collector" where
  "overlapping_Snapshots H c ts1 now1 ts2 now2 =
     (let snapshot1 = fst (Collector_Snapshot H c ts1 now1);
          check1 = recordTimePoint_check c now1;
          snapshot2 = fst (Collector_Snapshot H c ts2 now2);
          check2 = recordTimePoint_check c now2;
          c1 = (case check1 of
                  None \<Rightarrow> c
                | Some duration \<Rightarrow> recordTimePoint_commit c snapshot1 now1 duration)
      in case check2 of
           None \<Rightarrow> c1
         | Some duration \<Rightarrow> recordTimePoint_commit c1 snapshot2 now2 duration)"

text \<open>
  What every call keeps true of the series, with \<open>e\<close> the time from which the first point
  is counted: the points are spaced, all of them come at least a second after \<open>e\<close>, and
  \<open>lastSnapshot\<close> is the time of the last point (\<open>e\<close> itself when there is none).
\<close>

definition series_inv :: "time \<Rightarrow> 'h Collector \<Rightarrow> bool" where
  "series_inv e c \<longleftrightarrow>
     spaced (timeSeries c)
     \<and> (if timeSeries c = [] then lastSnapshot c = e
        else Timestamp (last (timeSeries c)) = lastSnapshot c
             \<and> (\<forall>p \<in> set (timeSeries c). Timestamp p \<ge> e + Second))"


section \<open>Concrete inputs\<close>

text \<open>A configuration that passes every check of \<open>Config.Validate\<close>.\<close>

definition cfg_plain :: Config where
  "cfg_plain =
     \<lparr> Target = \<lparr> URL = ''http://localhost:8080/'' \<rparr>,
       Load = \<lparr> Concurrency = 10, Duration = 10 * Second, TotalRequests = 0, RateLimit = 0,
                LoadPattern = LoadPatternConstant,
                RampUp = \<lparr> RampUp_Enabled = False, StartConcurrency = 0, EndConcurrency = 0,
                           RampUp_Duration = 0, Steps = 0 \<rparr> \<rparr>,
       Protocol = \<lparr> HTTP2Enabled = False, HTTP3Enabled = False \<rparr>,
       Validation = \<lparr> StatusCodes = [200], ContentPatterns = [], ResponseTimeMax = 5 * Second,
                      HeaderValidation = [],
                      BodyValidation = \<lparr> MinSize = 0, MaxSize = 0, Contains = [],
                                         NotContains = [] \<rparr> \<rparr>,
       Distributed = \<lparr> Distributed_Enabled = False, WorkerMode = False,
                       WorkerAddresses = [] \<rparr> \<rparr>"

text \<open>The same configuration in distributed mode, as a master with no worker address.\<close>

definition cfg_master_alone :: Config where
  "cfg_master_alone =
     cfg_plain\<lparr> Distributed := \<lparr> Distributed_Enabled = True, WorkerMode = False,
                                  WorkerAddresses = [] \<rparr> \<rparr>"


text \<open>
  A stand-in for the three library functions, to run the model on concrete inputs: a
  pattern is a literal text and matches the bodies that contain it; a pattern with an
  opening parenthesis does not compile; header names are kept as they are.
\<close>

definition toy_stdlib :: "string stdlib" where
  "toy_stdlib =
     \<lparr> regexp_Compile = (\<lambda>p. if bytes_Contains p ''('' then None else Some p),
       regexp_Match = (\<lambda>re b. bytes_Contains b re),
       regexp_String = (\<lambda>re. re),
       CanonicalMIMEHeaderKey = (\<lambda>k. k) \<rparr>"

definition sample_validation :: ValidationConfig where
  "sample_validation =
     \<lparr> StatusCodes = [200, 204],
       ContentPatterns = [''status'', ''(''],
       ResponseTimeMax = Second,
       HeaderValidation = [(''Content-Type'', ''text/plain'')],
       BodyValidation = \<lparr> MinSize = 2, MaxSize = 64, Contains = [''ok''],
                          NotContains = [''error''] \<rparr> \<rparr>"

definition sample_response :: Response where
  "sample_response =
     \<lparr> StatusCode = 200,
       Header = Mapping.update ''Content-Type'' [''text/plain''] Mapping.empty \<rparr>"

text \<open>A configuration with no check at all.\<close>

definition empty_validation :: ValidationConfig where
  "empty_validation =
     \<lparr> StatusCodes = [], ContentPatterns = [], ResponseTimeMax = 0, HeaderValidation = [],
       BodyValidation = \<lparr> MinSize = 0, MaxSize = 0, Contains = [], NotContains = [] \<rparr> \<rparr>"


text \<open>
  A stand-in for the histogram library: the list of the recorded values, with the mean of
  the list and its largest value for every quantile.
\<close>

definition list_histogram :: "int list hdrhistogram" where
  "list_histogram =
     \<lparr> hdr_New = [],
       hdr_RecordValue = (\<lambda>h v. h @ [v]),
       hdr_Reset = (\<lambda>h. []),
       hdr_Min = (\<lambda>h. case h of [] \<Rightarrow> 0 | x # xs \<Rightarrow> fold min xs x),
       hdr_Max = (\<lambda>h. case h of [] \<Rightarrow> 0 | x # xs \<Rightarrow> fold max xs x),
       hdr_Mean = (\<lambda>h. if h = [] then 0 else real_of_int (sum_list h) / real (length h)),
       hdr_StdDev = (\<lambda>h. 0),
       hdr_ValueAtQuantile = (\<lambda>h q. case h of [] \<Rightarrow> 0 | x # xs \<Rightarrow> fold max xs x) \<rparr>"

text \<open>
  Three exchanges: one that completes with \<open>sample_response\<close>, one whose dispatch fails,
  and one whose response arrives but whose body cannot be read.
\<close>

definition exchange_ok :: exchange where
  "exchange_ok =
     \<lparr> createRequest_result = Some 0, Do_result = Some sample_response,
       ReadAll_result = Some ''status=ok'', Since_startTime = 2000000 \<rparr>"

definition exchange_network_error :: exchange where
  "exchange_network_error =
     \<lparr> createRequest_result = Some 0, Do_result = None,
       ReadAll_result = None, Since_startTime = 2000000 \<rparr>"

definition exchange_body_read_error :: exchange where
  "exchange_body_read_error =
     \<lparr> createRequest_result = Some 0, Do_result = Some sample_response,
       ReadAll_result = None, Since_startTime = 2000000 \<rparr>"

text \<open>A fresh collector, and the executor with the stand-ins and the sample validator.\<close>

definition fresh_collector :: "int list Collector" where
  "fresh_collector = NewCollector list_histogram 0 0"

definition sample_execute :: "int list Collector \<Rightarrow> exchange \<Rightarrow> int list Collector" where
  "sample_execute c x =
     executeRequest toy_stdlib list_histogram (Validator_New toy_stdlib sample_validation) c x"

text \<open>A ramp from 10 to 15 workers over two seconds in two steps.\<close>

definition ramp_10_to_15 :: RampUpConfig where
  "ramp_10_to_15 =
     \<lparr> RampUp_Enabled = True, StartConcurrency = 10, EndConcurrency = 15,
       RampUp_Duration = 2 * Second, Steps = 2 \<rparr>"


text \<open>
  Two overlapping snapshots of a collector made at time 0, reading the clock at one second
  and one nanosecond later.
\<close>

definition racing_collector :: "int list Collector" where
  "racing_collector =
     overlapping_Snapshots list_histogram fresh_collector
       1000000000 1000000000 1000000001 1000000001"




text \<open>Two requests, a snapshot at 1 s, one more request, a snapshot at 2 s.\<close>

definition rps_calls :: "collector_call list" where
  "rps_calls =
     [CallRecordRequest 2000000 9 0 True,
      CallRecordRequest 2000000 9 0 True,
      CallSnapshot 1000000000 1000000000,
      CallRecordRequest 2000000 9 0 True,
      CallSnapshot 2000000000 2000000000]"






section \<open>Config.Validate\<close>

text \<open>
  Claim C7, as stated: \<open>Config.Validate\<close> returns an error exactly when the URL is empty,
  the concurrency is not positive, neither a positive duration nor a positive request count
  is set, or HTTP/2 and HTTP/3 are both enabled. The configuration \<open>cfg_master_alone\<close>
  has none of the four defects and is rejected all the same.
\<close>

theorem Config_Validate_four_checks_counterexample:
  "URL (Target cfg_master_alone) \<noteq> []
   \<and> \<not> Concurrency (Load cfg_master_alone) \<le> 0
   \<and> \<not> (Duration (Load cfg_master_alone) \<le> 0 \<and> TotalRequests (Load cfg_master_alone) \<le> 0)
   \<and> \<not> (HTTP2Enabled (Protocol cfg_master_alone) \<and> HTTP3Enabled (Protocol cfg_master_alone))
   \<and> Config_Validate cfg_master_alone = Some NoWorkerAddresses"
  by (simp add: Config_Validate_def cfg_master_alone_def cfg_plain_def Second_def)

text \<open>
  Claim C7, amended: \<open>Config.Validate\<close> returns an error exactly when one of the four
  defects holds or the configuration is in distributed mode, is not a worker and lists no
  worker address; otherwise it returns no error.
\<close>

theorem Config_Validate_five_checks:
  "Config_Validate c \<noteq> None \<longleftrightarrow>
     URL (Target c) = []
     \<or> Concurrency (Load c) \<le> 0
     \<or> (Duration (Load c) \<le> 0 \<and> TotalRequests (Load c) \<le> 0)
     \<or> (HTTP2Enabled (Protocol c) \<and> HTTP3Enabled (Protocol c))
     \<or> (Distributed_Enabled (Distributed c) \<and> \<not> WorkerMode (Distributed c)
          \<and> WorkerAddresses (Distributed c) = [])"
  by (simp add: Config_Validate_def)

theorem Config_Validate_five_checks_witness:
  "Config_Validate cfg_plain = None \<and> Config_Validate cfg_master_alone \<noteq> None"
  using Config_Validate_five_checks [of cfg_plain] Config_Validate_five_checks [of cfg_master_alone]
  by (simp add: cfg_master_alone_def cfg_plain_def Second_def)


section \<open>Validator: the code against the specification's checks\<close>

lemma New_codes_lookup:
  "Mapping.lookup_default False (New_codes cs m) code
     \<longleftrightarrow> code \<in> set cs \<or> Mapping.lookup_default False m code"
  by (induction cs arbitrary: m) (auto simp: lookup_default_update')

lemma New_codes_is_empty:
  "Mapping.is_empty (New_codes cs m) \<longleftrightarrow> cs = [] \<and> Mapping.is_empty m"
  by (induction cs arbitrary: m) (auto simp: Mapping.is_empty_update)

lemma New_patterns_map_filter:
  "New_patterns L ps acc = acc @ List.map_filter (regexp_Compile L) ps"
  by (induction ps arbitrary: acc) (auto simp: List.map_filter_simps split: option.splits)

lemma validateHeaders_loop_None:
  "validateHeaders_loop L hv h = None
     \<longleftrightarrow> (\<forall>(name, expected) \<in> set hv. Header_Get L h name = expected)"
  by (induction hv) (auto simp: Let_def split: if_splits)

lemma validateHeaders_loop_Some:
  "validateHeaders_loop L hv h = Some e \<Longrightarrow> Type e = ''header''"
  by (induction hv) (auto simp: Let_def split: if_splits)

lemma validateBody_contains_None:
  "validateBody_contains cs body = None \<longleftrightarrow> (\<forall>c \<in> set cs. bytes_Contains body c)"
  by (induction cs) (auto split: if_splits)

lemma validateBody_contains_Some:
  "validateBody_contains cs body = Some e \<Longrightarrow> Type e = ''body_content''"
  by (induction cs) (auto split: if_splits)

lemma validateBody_notContains_None:
  "validateBody_notContains cs body = None \<longleftrightarrow> (\<forall>c \<in> set cs. \<not> bytes_Contains body c)"
  by (induction cs) (auto split: if_splits)

lemma validateBody_notContains_Some:
  "validateBody_notContains cs body = Some e \<Longrightarrow> Type e = ''body_content''"
  by (induction cs) (auto split: if_splits)

lemma validateBody_patterns_None:
  "validateBody_patterns L res body = None \<longleftrightarrow> (\<forall>re \<in> set res. regexp_Match L re body)"
  by (induction res) (auto split: if_splits)

lemma validateBody_patterns_Some:
  "validateBody_patterns L res body = Some e \<Longrightarrow> Type e = ''content_pattern''"
  by (induction res) (auto split: if_splits)

lemma set_map_filter_compile:
  "(\<forall>re \<in> set (List.map_filter f ps). P re)
     \<longleftrightarrow> (\<forall>p \<in> set ps. case f p of None \<Rightarrow> True | Some re \<Rightarrow> P re)"
  by (induction ps) (auto simp: List.map_filter_simps split: option.splits)

lemma validateStatusCode_New_None:
  "validateStatusCode (Validator_New L cfg) code = None \<longleftrightarrow> spec_status_ok cfg code"
  by (auto simp: validateStatusCode_def Validator_New_def spec_status_ok_def
        New_codes_lookup New_codes_is_empty lookup_default_empty)

lemma validateStatusCode_kind:
  "validateStatusCode v code \<noteq> None
     \<Longrightarrow> map_option Type (validateStatusCode v code) = Some ''status_code''"
  by (auto simp: validateStatusCode_def split: if_splits)

lemma validateHeaders_New_None:
  "validateHeaders L (Validator_New L cfg) h = None \<longleftrightarrow> spec_headers_ok L cfg h"
  by (simp add: validateHeaders_def spec_headers_ok_def Validator_New_def validateHeaders_loop_None)

lemma validateHeaders_kind:
  "validateHeaders L v h \<noteq> None \<Longrightarrow> map_option Type (validateHeaders L v h) = Some ''header''"
  by (auto simp: validateHeaders_def dest: validateHeaders_loop_Some)

lemma validateBody_contains_spec:
  "validateBody_contains (Contains (BodyValidation cfg)) body = None \<longleftrightarrow> spec_required_ok cfg body"
  by (simp add: validateBody_contains_None spec_required_ok_def)

lemma validateBody_notContains_spec:
  "validateBody_notContains (NotContains (BodyValidation cfg)) body = None
     \<longleftrightarrow> spec_forbidden_ok cfg body"
  by (simp add: validateBody_notContains_None spec_forbidden_ok_def)

lemma validateBody_patterns_spec:
  "validateBody_patterns L (List.map_filter (regexp_Compile L) (ContentPatterns cfg)) body = None
     \<longleftrightarrow> spec_patterns_ok L cfg body"
  by (simp add: validateBody_patterns_None spec_patterns_ok_def set_map_filter_compile)

lemma spec_size_ok_guards:
  "spec_size_ok cfg body \<longleftrightarrow>
     \<not> (MinSize (BodyValidation cfg) > 0 \<and> int (length body) < MinSize (BodyValidation cfg))
     \<and> \<not> (MaxSize (BodyValidation cfg) > 0 \<and> int (length body) > MaxSize (BodyValidation cfg))"
  by (auto simp: spec_size_ok_def)

lemma Validator_New_fields:
  "contentPatterns (Validator_New L cfg) = List.map_filter (regexp_Compile L) (ContentPatterns cfg)"
  "config (Validator_New L cfg) = cfg"
  by (simp_all add: Validator_New_def New_patterns_map_filter)

lemma validateBody_New_None:
  "validateBody L (Validator_New L cfg) body = None
     \<longleftrightarrow> spec_size_ok cfg body \<and> spec_required_ok cfg body \<and> spec_forbidden_ok cfg body
         \<and> spec_patterns_ok L cfg body"
proof (cases "spec_size_ok cfg body")
  case True
  then have g:
    "\<not> (MinSize (BodyValidation cfg) > 0 \<and> int (length body) < MinSize (BodyValidation cfg))"
    "\<not> (MaxSize (BodyValidation cfg) > 0 \<and> int (length body) > MaxSize (BodyValidation cfg))"
    by (simp_all add: spec_size_ok_guards)
  show ?thesis
    unfolding validateBody_def Let_def Validator_New_fields if_not_P [OF g(1)] if_not_P [OF g(2)]
    by (simp add: True option.case_eq_if validateBody_contains_spec
          validateBody_notContains_spec validateBody_patterns_spec)
next
  case False
  then show ?thesis
    unfolding validateBody_def Let_def Validator_New_fields
    by (auto simp: spec_size_ok_guards)
qed

lemma validateBody_New_kind:
  assumes "validateBody L (Validator_New L cfg) body \<noteq> None"
  shows "map_option Type (validateBody L (Validator_New L cfg) body) =
     Some (if \<not> spec_size_ok cfg body then ''body_size''
      else if \<not> spec_required_ok cfg body then ''body_content''
      else if \<not> spec_forbidden_ok cfg body then ''body_content''
      else ''content_pattern'')"
proof (cases "spec_size_ok cfg body")
  case False
  then show ?thesis
    unfolding validateBody_def Let_def Validator_New_fields
    by (auto simp: spec_size_ok_guards)
next
  case size: True
  let ?c = "validateBody_contains (Contains (BodyValidation cfg)) body"
  let ?n = "validateBody_notContains (NotContains (BodyValidation cfg)) body"
  let ?p = "validateBody_patterns L (List.map_filter (regexp_Compile L) (ContentPatterns cfg)) body"
  have eq: "validateBody L (Validator_New L cfg) body
      = (case ?c of Some err \<Rightarrow> Some err | None \<Rightarrow> (case ?n of Some err \<Rightarrow> Some err | None \<Rightarrow> ?p))"
  proof -
    have g:
      "\<not> (MinSize (BodyValidation cfg) > 0 \<and> int (length body) < MinSize (BodyValidation cfg))"
      "\<not> (MaxSize (BodyValidation cfg) > 0 \<and> int (length body) > MaxSize (BodyValidation cfg))"
      using size by (simp_all add: spec_size_ok_guards)
    show ?thesis
      unfolding validateBody_def Let_def Validator_New_fields if_not_P [OF g(1)] if_not_P [OF g(2)]
      by (simp split: option.splits)
  qed
  show ?thesis
  proof (cases ?c)
    case (Some e)
    then have "\<not> spec_required_ok cfg body"
      using validateBody_contains_spec [of cfg body] by simp
    then show ?thesis
      using size Some validateBody_contains_Some [OF Some] by (simp add: eq)
  next
    case cNone: None
    then have req: "spec_required_ok cfg body"
      using validateBody_contains_spec [of cfg body] by simp
    show ?thesis
    proof (cases ?n)
      case (Some e)
      then have "\<not> spec_forbidden_ok cfg body"
        using validateBody_notContains_spec [of cfg body] by simp
      then show ?thesis
        using size req cNone Some validateBody_notContains_Some [OF Some] by (simp add: eq)
    next
      case nNone: None
      then have forb: "spec_forbidden_ok cfg body"
        using validateBody_notContains_spec [of cfg body] by simp
      from assms obtain e where p: "?p = Some e"
        using cNone nNone by (auto simp: eq)
      show ?thesis
        using size req forb cNone nNone p validateBody_patterns_Some [OF p] by (simp add: eq)
    qed
  qed
qed

lemma Validate_New_None:
  "Validate L (Validator_New L cfg) resp body = None
     \<longleftrightarrow> spec_status_ok cfg (StatusCode resp) \<and> spec_headers_ok L cfg (Header resp)
         \<and> spec_size_ok cfg body \<and> spec_required_ok cfg body \<and> spec_forbidden_ok cfg body
         \<and> spec_patterns_ok L cfg body"
  unfolding Validate_def
  by (simp add: option.case_eq_if validateStatusCode_New_None validateHeaders_New_None
        validateBody_New_None)

lemma Validate_New_kind:
  "map_option Type (Validate L (Validator_New L cfg) resp body) = spec_Validate L cfg resp body"
  unfolding Validate_def spec_Validate_def spec_checks_def
  by (simp add: option.case_eq_if validateStatusCode_New_None validateHeaders_New_None
        validateBody_New_None validateStatusCode_kind validateHeaders_kind validateBody_New_kind)

lemma first_failure_snoc:
  "first_failure (xs @ [(k, ok)]) =
      (case first_failure xs of Some kind \<Rightarrow> Some kind | None \<Rightarrow> if ok then None else Some k)"
  by (induction xs) auto

lemma ValidateWithLatency_New_kind:
  "map_option Type (ValidateWithLatency L (Validator_New L cfg) resp body lat)
     = spec_ValidateWithLatency L cfg resp body lat"
proof -
  have cfg: "config (Validator_New L cfg) = cfg"
    by (simp add: Validator_New_def)
  show ?thesis
    using Validate_New_kind [of L cfg resp body]
    unfolding ValidateWithLatency_def spec_ValidateWithLatency_def first_failure_snoc
      spec_Validate_def cfg
    by (auto simp: spec_latency_ok_def split: option.splits)
qed



lemmas sample_validation_defs = toy_stdlib_def sample_validation_def sample_response_def
  spec_Validate_def spec_ValidateWithLatency_def spec_checks_def spec_status_ok_def
  spec_headers_ok_def spec_size_ok_def spec_required_ok_def spec_forbidden_ok_def
  spec_patterns_ok_def spec_latency_ok_def Header_Get_def Second_def

lemma validateStatusCode_New_error:
  "validateStatusCode (Validator_New L cfg) code = spec_status_error cfg code"
proof (cases "spec_status_ok cfg code")
  case True
  then show ?thesis
    by (simp add: spec_status_error_def validateStatusCode_New_None)
next
  case False
  then have "validateStatusCode (Validator_New L cfg) code \<noteq> None"
    by (simp add: validateStatusCode_New_None)
  then show ?thesis
    using False
    by (auto simp: validateStatusCode_def spec_status_error_def Validator_New_fields
          split: if_splits)
qed

lemma validateHeaders_loop_error:
  "validateHeaders_loop L hv h =
     map_option
       (\<lambda>(name, expected).
          \<lparr> Type = ''header'', Message = HeaderMismatch name expected (Header_Get L h name) \<rparr>)
       (find (\<lambda>(name, expected). Header_Get L h name \<noteq> expected) hv)"
  by (induction hv) (auto simp: Let_def)

lemma validateBody_contains_error:
  "validateBody_contains cs body =
     map_option (\<lambda>content. \<lparr> Type = ''body_content'', Message = MissingContent content \<rparr>)
       (find (\<lambda>content. \<not> bytes_Contains body content) cs)"
  by (induction cs) auto

lemma validateBody_notContains_error:
  "validateBody_notContains cs body =
     map_option (\<lambda>content. \<lparr> Type = ''body_content'', Message = ForbiddenContent content \<rparr>)
       (find (\<lambda>content. bytes_Contains body content) cs)"
  by (induction cs) auto

lemma validateBody_patterns_error:
  "validateBody_patterns L res body =
     map_option
       (\<lambda>re. \<lparr> Type = ''content_pattern'', Message = PatternMismatch (regexp_String L re) \<rparr>)
       (find (\<lambda>re. \<not> regexp_Match L re body) res)"
  by (induction res) auto

lemma first_error_single [simp]: "first_error [e] = e"
  by (cases e) simp_all

lemma validateBody_New_error:
  "validateBody L (Validator_New L cfg) body =
     first_error [spec_size_error cfg body, spec_required_error cfg body,
                  spec_forbidden_error cfg body, spec_patterns_error L cfg body]"
proof -
  have c: "validateBody_contains (Contains (BodyValidation cfg)) body = spec_required_error cfg body"
    by (simp add: validateBody_contains_error spec_required_error_def)
  have n: "validateBody_notContains (NotContains (BodyValidation cfg)) body
      = spec_forbidden_error cfg body"
    by (simp add: validateBody_notContains_error spec_forbidden_error_def)
  have p: "validateBody_patterns L (List.map_filter (regexp_Compile L) (ContentPatterns cfg)) body
      = spec_patterns_error L cfg body"
    by (simp add: validateBody_patterns_error spec_patterns_error_def)
  show ?thesis
    unfolding validateBody_def Let_def Validator_New_fields c n p
    by (cases "spec_required_error cfg body"; cases "spec_forbidden_error cfg body")
       (simp_all add: spec_size_error_def)
qed

lemma Validate_New_error:
  "Validate L (Validator_New L cfg) resp body = first_error (spec_errors L cfg resp body)"
proof -
  have h: "validateHeaders L (Validator_New L cfg) (Header resp)
      = spec_headers_error L cfg (Header resp)"
    by (simp add: validateHeaders_def Validator_New_fields validateHeaders_loop_error
          spec_headers_error_def)
  show ?thesis
    unfolding Validate_def spec_errors_def validateStatusCode_New_error h validateBody_New_error
    by (cases "spec_status_error cfg (StatusCode resp)";
        cases "spec_headers_error L cfg (Header resp)";
        cases "spec_size_error cfg body"; cases "spec_required_error cfg body";
        cases "spec_forbidden_error cfg body"; cases "spec_patterns_error L cfg body")
       simp_all
qed

lemma first_error_snoc:
  "first_error (xs @ [e]) = (case first_error xs of Some err \<Rightarrow> Some err | None \<Rightarrow> e)"
  by (induction xs rule: first_error.induct) simp_all

lemma ValidateWithLatency_New_error:
  "ValidateWithLatency L (Validator_New L cfg) resp body lat
     = first_error (spec_errors L cfg resp body @ [spec_latency_error cfg lat])"
  unfolding ValidateWithLatency_def Validate_New_error first_error_snoc Validator_New_fields
  by (auto simp: spec_latency_error_def spec_latency_ok_def split: option.splits)

text \<open>
  Claim C5: \<open>Validate\<close> and \<open>ValidateWithLatency\<close> run the checks in the fixed order
  status, headers, body size, required substrings, forbidden substrings, patterns and, in
  the latency-aware variant only, latency. The error returned, kind and message, is the
  error of the first check that fails, whatever the later checks would say, and no error is
  returned exactly when every configured check passes.
\<close>

theorem Validate_checks_in_order:
  "Validate L (Validator_New L cfg) resp body = first_error (spec_errors L cfg resp body)
   \<and> ValidateWithLatency L (Validator_New L cfg) resp body lat
       = first_error (spec_errors L cfg resp body @ [spec_latency_error cfg lat])
   \<and> map_option Type (Validate L (Validator_New L cfg) resp body) = spec_Validate L cfg resp body
   \<and> map_option Type (ValidateWithLatency L (Validator_New L cfg) resp body lat)
       = spec_ValidateWithLatency L cfg resp body lat
   \<and> (Validate L (Validator_New L cfg) resp body = None
        \<longleftrightarrow> spec_status_ok cfg (StatusCode resp) \<and> spec_headers_ok L cfg (Header resp)
            \<and> spec_size_ok cfg body \<and> spec_required_ok cfg body \<and> spec_forbidden_ok cfg body
            \<and> spec_patterns_ok L cfg body)"
  by (intro conjI Validate_New_error ValidateWithLatency_New_error Validate_New_kind
        ValidateWithLatency_New_kind Validate_New_None)

lemmas sample_error_defs = spec_errors_def spec_status_error_def spec_headers_error_def
  spec_size_error_def spec_required_error_def spec_forbidden_error_def spec_patterns_error_def
  spec_latency_error_def

theorem Validate_checks_in_order_witness:
  "Validate toy_stdlib (Validator_New toy_stdlib sample_validation) sample_response ''status=ok'' = None
   \<and> Validate toy_stdlib (Validator_New toy_stdlib sample_validation) sample_response
        ''status=error'' = Some \<lparr> Type = ''body_content'', Message = MissingContent ''ok'' \<rparr>
   \<and> Validate toy_stdlib (Validator_New toy_stdlib sample_validation) sample_response
        ''status=ok, no error'' = Some \<lparr> Type = ''body_content'', Message = ForbiddenContent ''error'' \<rparr>
   \<and> ValidateWithLatency toy_stdlib (Validator_New toy_stdlib sample_validation)
        sample_response ''status=ok'' (2 * Second)
      = Some \<lparr> Type = ''response_time'', Message = ResponseTooSlow (2 * Second) Second \<rparr>"
  using Validate_checks_in_order [of toy_stdlib sample_validation sample_response "''status=ok''" "2 * Second"]
    Validate_checks_in_order [of toy_stdlib sample_validation sample_response "''status=error''" 0]
    Validate_checks_in_order [of toy_stdlib sample_validation sample_response "''status=ok, no error''" 0]
  by (simp add: sample_validation_defs sample_error_defs)

lemma validateBody_patterns_culprit:
  "validateBody_patterns L res body = Some e
     \<Longrightarrow> \<exists>re \<in> set res. \<not> regexp_Match L re body \<and> Message e = PatternMismatch (regexp_String L re)"
  by (induction res) (auto split: if_splits)

lemma set_map_filter_origin:
  "re \<in> set (List.map_filter f ps) \<Longrightarrow> \<exists>p \<in> set ps. f p = Some re"
  by (induction ps) (auto split: option.splits)

lemma map_filter_drop_None:
  "f p = None \<Longrightarrow> List.map_filter f (xs @ p # ys) = List.map_filter f (xs @ ys)"
  by (simp add: List.map_filter_def)

lemma Validate_content_pattern_origin:
  assumes "Validate L (Validator_New L cfg) resp body = Some e" and "Type e = ''content_pattern''"
  shows "\<exists>p \<in> set (ContentPatterns cfg). \<exists>re. regexp_Compile L p = Some re
           \<and> \<not> regexp_Match L re body \<and> Message e = PatternMismatch (regexp_String L re)"
proof -
  let ?v = "Validator_New L cfg"
  have s: "validateStatusCode ?v (StatusCode resp) = None"
    using assms validateStatusCode_kind [of ?v "StatusCode resp"]
    by (cases "validateStatusCode ?v (StatusCode resp)") (auto simp: Validate_def)
  have h: "validateHeaders L ?v (Header resp) = None"
    using assms s validateHeaders_kind [of L ?v "Header resp"]
    by (cases "validateHeaders L ?v (Header resp)") (auto simp: Validate_def)
  have b: "validateBody L ?v body = Some e"
    using assms s h by (auto simp: Validate_def split: option.splits)
  have "validateBody_patterns L (contentPatterns ?v) body = Some e"
    using b assms(2)
    unfolding validateBody_def Let_def
    by (auto split: if_splits option.splits
          dest: validateBody_contains_Some validateBody_notContains_Some)
  then obtain re where re: "re \<in> set (contentPatterns ?v)" "\<not> regexp_Match L re body"
      "Message e = PatternMismatch (regexp_String L re)"
    using validateBody_patterns_culprit by blast
  from re(1) obtain p where "p \<in> set (ContentPatterns cfg)" "regexp_Compile L p = Some re"
    unfolding Validator_New_fields using set_map_filter_origin by force
  with re show ?thesis by blast
qed

lemma Validate_drop_uncompilable:
  assumes "regexp_Compile L p = None"
  shows "Validate L (Validator_New L (cfg\<lparr>ContentPatterns := xs @ p # ys\<rparr>)) resp body
         = Validate L (Validator_New L (cfg\<lparr>ContentPatterns := xs @ ys\<rparr>)) resp body"
proof -
  let ?v1 = "Validator_New L (cfg\<lparr>ContentPatterns := xs @ p # ys\<rparr>)"
  let ?v2 = "Validator_New L (cfg\<lparr>ContentPatterns := xs @ ys\<rparr>)"
  have s: "validateStatusCode ?v1 code = validateStatusCode ?v2 code" for code
    by (simp add: validateStatusCode_def Validator_New_def)
  have h: "validateHeaders L ?v1 hs = validateHeaders L ?v2 hs" for hs
    by (simp add: validateHeaders_def Validator_New_def)
  have cp: "contentPatterns ?v1 = contentPatterns ?v2"
    using assms by (simp add: Validator_New_fields map_filter_drop_None)
  have bv: "BodyValidation (config ?v1) = BodyValidation (config ?v2)"
    by (simp add: Validator_New_fields)
  have b: "validateBody L ?v1 body = validateBody L ?v2 body"
    unfolding validateBody_def cp bv ..
  show ?thesis
    unfolding Validate_def s h b ..
qed

lemma ValidateWithLatency_drop_uncompilable:
  assumes "regexp_Compile L p = None"
  shows "ValidateWithLatency L (Validator_New L (cfg\<lparr>ContentPatterns := xs @ p # ys\<rparr>)) resp body lat
         = ValidateWithLatency L (Validator_New L (cfg\<lparr>ContentPatterns := xs @ ys\<rparr>)) resp body lat"
proof -
  have r: "ResponseTimeMax (config (Validator_New L (cfg\<lparr>ContentPatterns := xs @ p # ys\<rparr>)))
      = ResponseTimeMax (config (Validator_New L (cfg\<lparr>ContentPatterns := xs @ ys\<rparr>)))"
    by (simp add: Validator_New_fields)
  show ?thesis
    unfolding ValidateWithLatency_def r Validate_drop_uncompilable [OF assms] ..
qed

text \<open>
  Claim C8: \<open>New\<close> compiles each configured pattern once, in order, and keeps the results
  of the patterns that compile. A pattern that does not compile leaves no trace: the
  validator answers every response as the validator built without that pattern does, and an
  error of kind \<open>content_pattern\<close> always comes from a configured pattern that compiled and
  does not match the body.
\<close>

theorem uncompilable_patterns_discarded:
  "contentPatterns (Validator_New L cfg) = List.map_filter (regexp_Compile L) (ContentPatterns cfg)
   \<and> (regexp_Compile L p = None \<longrightarrow>
        Validate L (Validator_New L (cfg\<lparr>ContentPatterns := xs @ p # ys\<rparr>)) resp body
          = Validate L (Validator_New L (cfg\<lparr>ContentPatterns := xs @ ys\<rparr>)) resp body
        \<and> ValidateWithLatency L (Validator_New L (cfg\<lparr>ContentPatterns := xs @ p # ys\<rparr>)) resp body lat
          = ValidateWithLatency L (Validator_New L (cfg\<lparr>ContentPatterns := xs @ ys\<rparr>)) resp body lat)
   \<and> (Validate L (Validator_New L cfg) resp body = Some e \<and> Type e = ''content_pattern'' \<longrightarrow>
        (\<exists>q \<in> set (ContentPatterns cfg). \<exists>re. regexp_Compile L q = Some re
           \<and> \<not> regexp_Match L re body \<and> Message e = PatternMismatch (regexp_String L re)))"
  using Validator_New_fields(1) Validate_drop_uncompilable ValidateWithLatency_drop_uncompilable
    Validate_content_pattern_origin
  by (metis (no_types, lifting))

theorem uncompilable_patterns_discarded_witness:
  "regexp_Compile toy_stdlib ''('' = None
   \<and> contentPatterns (Validator_New toy_stdlib sample_validation) = [''status'']
   \<and> Validate toy_stdlib (Validator_New toy_stdlib (sample_validation\<lparr>ContentPatterns := [''status''] @ ''('' # []\<rparr>))
        sample_response ''state=ok''
      = Validate toy_stdlib (Validator_New toy_stdlib (sample_validation\<lparr>ContentPatterns := [''status''] @ []\<rparr>))
        sample_response ''state=ok''
   \<and> Validate toy_stdlib (Validator_New toy_stdlib sample_validation) sample_response ''state=ok''
      = Some \<lparr> Type = ''content_pattern'', Message = PatternMismatch ''status'' \<rparr>"
proof -
  have c: "regexp_Compile toy_stdlib ''('' = None"
    by (simp add: toy_stdlib_def)
  have v: "Validate toy_stdlib (Validator_New toy_stdlib sample_validation) sample_response ''state=ok''
      = Some \<lparr> Type = ''content_pattern'', Message = PatternMismatch ''status'' \<rparr>"
    by (simp add: Validate_def validateStatusCode_def validateHeaders_def validateBody_def
        Validator_New_def toy_stdlib_def sample_validation_def sample_response_def Header_Get_def
        Mapping.is_empty_update lookup_default_update')
  show ?thesis
    using c v
      uncompilable_patterns_discarded [where L = toy_stdlib and cfg = sample_validation
        and p = "''(''" and xs = "[''status'']" and ys = "[]" and resp = sample_response
        and body = "''state=ok''" and lat = 0
        and e = "\<lparr> Type = ''content_pattern'', Message = PatternMismatch ''status'' \<rparr>"]
    by (simp add: sample_validation_def toy_stdlib_def)
qed

text \<open>
  Claim C10: when the configuration lists no status codes, no header equalities, no body
  size bounds, no required or forbidden substrings and no patterns, \<open>Validate\<close> returns
  no error for every response and body, and a request whose body is read in full is counted
  as a success: one more request, one more success, no error.
\<close>

theorem nothing_configured_accepts:
  assumes "StatusCodes cfg = []" and "HeaderValidation cfg = []"
    and "MinSize (BodyValidation cfg) = 0" and "MaxSize (BodyValidation cfg) = 0"
    and "Contains (BodyValidation cfg) = []" and "NotContains (BodyValidation cfg) = []"
    and "ContentPatterns cfg = []"
    and "createRequest_result x = Some n" and "Do_result x = Some resp"
    and "ReadAll_result x = Some body"
  shows "Validate L (Validator_New L cfg) resp body = None
    \<and> successRequests (executeRequest L H (Validator_New L cfg) c x) = successRequests c + 1
    \<and> totalRequests (executeRequest L H (Validator_New L cfg) c x) = totalRequests c + 1
    \<and> totalErrors (executeRequest L H (Validator_New L cfg) c x) = totalErrors c
    \<and> errorsByType (executeRequest L H (Validator_New L cfg) c x) = errorsByType c"
proof -
  have v: "Validate L (Validator_New L cfg) resp body = None"
    using assms(1-7)
    by (simp add: Validate_New_None spec_status_ok_def spec_headers_ok_def spec_size_ok_def
          spec_required_ok_def spec_forbidden_ok_def spec_patterns_ok_def)
  show ?thesis
    using v assms(8-10)
    by (simp add: executeRequest_def RecordRequest_def RecordStatusCode_def Let_def)
qed


theorem nothing_configured_accepts_witness:
  "Validate toy_stdlib (Validator_New toy_stdlib empty_validation) sample_response ''status=ok'' = None
   \<and> successRequests (executeRequest toy_stdlib list_histogram
         (Validator_New toy_stdlib empty_validation) fresh_collector exchange_ok) = 1
   \<and> totalRequests (executeRequest toy_stdlib list_histogram
         (Validator_New toy_stdlib empty_validation) fresh_collector exchange_ok) = 1
   \<and> totalErrors (executeRequest toy_stdlib list_histogram
         (Validator_New toy_stdlib empty_validation) fresh_collector exchange_ok) = 0"
  using nothing_configured_accepts [where cfg = empty_validation and x = exchange_ok
      and n = 0 and resp = sample_response and body = "''status=ok''" and L = toy_stdlib
      and H = list_histogram and c = fresh_collector]
  by (simp add: empty_validation_def exchange_ok_def fresh_collector_def NewCollector_def)



section \<open>The time series of the collector\<close>

lemma Seconds_less_1: "Seconds d < 1 \<longleftrightarrow> d < Second"
  by (simp add: Seconds_def Second_def)

lemma spaced_snoc:
  "spaced (ps @ [q]) \<longleftrightarrow> spaced ps \<and> (ps = [] \<or> Timestamp q - Timestamp (last ps) \<ge> Second)"
  by (induction ps rule: spaced.induct) auto

lemma recordTimePoint_cases:
  "recordTimePoint c snapshot now =
     (if now - lastSnapshot c < Second then c
      else c\<lparr> timeSeries := timeSeries c @
                [\<lparr> Timestamp = now,
                   RPS = real_of_int (S_TotalRequests snapshot) / Seconds (now - lastSnapshot c),
                   AvgLatency = S_AvgLatency snapshot,
                   ErrorRate = (if S_TotalRequests snapshot > 0
                                then real_of_int (S_TotalErrors snapshot)
                                       / real_of_int (S_TotalRequests snapshot)
                                else 0) \<rparr>],
              lastSnapshot := now \<rparr>)"
  by (simp add: recordTimePoint_def Let_def Seconds_less_1 getLastTotalRequests_def)

lemma Snapshot_early:
  "now - lastSnapshot c < Second \<Longrightarrow> snd (Collector_Snapshot H c ts now) = c"
  by (simp add: Collector_Snapshot_def Let_def recordTimePoint_cases)

lemma Snapshot_late:
  assumes "\<not> now - lastSnapshot c < Second"
  shows "\<exists>p. Timestamp p = now
           \<and> timeSeries (snd (Collector_Snapshot H c ts now)) = timeSeries c @ [p]
           \<and> lastSnapshot (snd (Collector_Snapshot H c ts now)) = now"
  using assms by (simp add: Collector_Snapshot_def Let_def recordTimePoint_cases)

lemma series_inv_call:
  assumes "series_inv e c"
  shows "series_inv (epoch e [k]) (call H c k)"
proof (cases k)
  case (CallSnapshot ts now)
  show ?thesis
  proof (cases "now - lastSnapshot c < Second")
    case True
    then show ?thesis
      using assms CallSnapshot by (simp add: Snapshot_early)
  next
    case False
    from Snapshot_late [OF False, of H ts] obtain p where p: "Timestamp p = now"
        "timeSeries (snd (Collector_Snapshot H c ts now)) = timeSeries c @ [p]"
        "lastSnapshot (snd (Collector_Snapshot H c ts now)) = now"
      by blast
    show ?thesis
    proof (cases "timeSeries c = []")
      case True
      then show ?thesis
        using assms False CallSnapshot p by (simp add: series_inv_def)
    next
      case nonempty: False
      then have facts: "\<forall>q \<in> set (timeSeries c). Timestamp q \<ge> e + Second"
          "Timestamp (last (timeSeries c)) = lastSnapshot c" "spaced (timeSeries c)"
          "Second \<ge> 0"
        using assms by (simp_all add: series_inv_def Second_def)
      moreover have "last (timeSeries c) \<in> set (timeSeries c)"
        using nonempty by simp
      ultimately have "e + Second \<le> lastSnapshot c"
        by force
      with facts show ?thesis
        using False CallSnapshot p nonempty
        by (auto simp: series_inv_def spaced_snoc)
    qed
  qed
qed (use assms in \<open>simp_all add: series_inv_def RecordRequest_def RecordError_def
       RecordStatusCode_def Reset_def Let_def\<close>)

lemma epoch_append: "epoch e (k # ks) = epoch (epoch e [k]) ks"
  by (cases k) simp_all

lemma series_inv_calls:
  "series_inv e c \<Longrightarrow> series_inv (epoch e ks) (calls H c ks)"
proof (induction ks arbitrary: e c)
  case Nil
  then show ?case by simp
next
  case (Cons k ks)
  from Cons.prems have "series_inv (epoch e [k]) (call H c k)"
    by (rule series_inv_call)
  then have "series_inv (epoch (epoch e [k]) ks) (calls H (call H c k) ks)"
    by (rule Cons.IH)
  then show ?case
    by (simp add: epoch_append [of e k ks])
qed

lemma series_inv_New: "series_inv t1 (NewCollector H t0 t1)"
  by (simp add: series_inv_def NewCollector_def)


text \<open>
  Calls taken one after the other, each running to its end before the next begins, keep
  the points spaced: any two consecutive points are at least one second apart, every point
  comes at least one second after the creation of the collector (or its last reset), and a
  snapshot taken less than one second after the last point leaves the series as it is.
\<close>

lemma sequential_calls_keep_points_spaced:
  assumes "c = calls H (NewCollector H t0 t1) ks"
  shows "spaced (timeSeries c)
    \<and> (\<forall>p \<in> set (timeSeries c). Timestamp p \<ge> epoch t1 ks + Second)
    \<and> (timeSeries c \<noteq> [] \<and> now - Timestamp (last (timeSeries c)) < Second
         \<longrightarrow> timeSeries (snd (Collector_Snapshot H c ts now)) = timeSeries c)
    \<and> (timeSeries c = [] \<and> now - epoch t1 ks < Second
         \<longrightarrow> timeSeries (snd (Collector_Snapshot H c ts now)) = timeSeries c)
    \<and> (timeSeries (snd (Collector_Snapshot H c ts now)) \<noteq> timeSeries c
         \<longrightarrow> now - lastSnapshot c \<ge> Second
             \<and> (\<exists>p. Timestamp p = now
                    \<and> timeSeries (snd (Collector_Snapshot H c ts now)) = timeSeries c @ [p]))"
proof -
  have inv: "series_inv (epoch t1 ks) c"
    unfolding assms by (rule series_inv_calls [OF series_inv_New])
  have 1: "spaced (timeSeries c)"
    using inv by (simp add: series_inv_def)
  have 2: "\<forall>p \<in> set (timeSeries c). Timestamp p \<ge> epoch t1 ks + Second"
    using inv by (cases "timeSeries c = []") (simp_all add: series_inv_def)
  have 3: "timeSeries (snd (Collector_Snapshot H c ts now)) = timeSeries c"
    if "timeSeries c \<noteq> []" "now - Timestamp (last (timeSeries c)) < Second"
    using inv that by (simp add: series_inv_def Snapshot_early)
  have 4: "timeSeries (snd (Collector_Snapshot H c ts now)) = timeSeries c"
    if "timeSeries c = []" "now - epoch t1 ks < Second"
    using inv that by (simp add: series_inv_def Snapshot_early)
  have 5: "now - lastSnapshot c \<ge> Second
             \<and> (\<exists>p. Timestamp p = now
                    \<and> timeSeries (snd (Collector_Snapshot H c ts now)) = timeSeries c @ [p])"
    if "timeSeries (snd (Collector_Snapshot H c ts now)) \<noteq> timeSeries c"
  proof -
    have late: "\<not> now - lastSnapshot c < Second"
      using that Snapshot_early [of now c H ts] by auto
    from Snapshot_late [OF late, of H ts] late show ?thesis by auto
  qed
  show ?thesis
    using 1 2 3 4 5 by blast
qed


text \<open>The two halves of \<open>recordTimePoint\<close>, run without a break, are the function.\<close>

lemma recordTimePoint_check_commit:
  "recordTimePoint c snapshot now =
     (case recordTimePoint_check c now of
        None \<Rightarrow> c
      | Some duration \<Rightarrow> recordTimePoint_commit c snapshot now duration)"
  by (simp add: recordTimePoint_def recordTimePoint_check_def recordTimePoint_commit_def Let_def)

text \<open>
  Claim C9 asks that any two consecutive points of the time series be at least one second
  apart. The guard of \<open>recordTimePoint\<close> is there for that, but \<open>lastSnapshot\<close> is read
  and written outside any lock. In \<open>racing_collector\<close> two snapshots overlap on a collector
  made at time 0: both read \<open>lastSnapshot = 0\<close>, both find a second elapsed, both append.
  The two points are one nanosecond apart.
\<close>

theorem overlapping_snapshots_break_spacing:
  "lastSnapshot fresh_collector = 0
   \<and> recordTimePoint_check fresh_collector 1000000000 = Some 1
   \<and> map Timestamp (timeSeries racing_collector) = [1000000000, 1000000001]
   \<and> \<not> spaced (timeSeries racing_collector)"
  by (simp add: racing_collector_def overlapping_Snapshots_def fresh_collector_def
        NewCollector_def Collector_Snapshot_def recordTimePoint_check_def
        recordTimePoint_commit_def getLastTotalRequests_def Seconds_def Second_def Let_def)


section \<open>The executor and the counters\<close>

lemmas sample_run_defs = sample_execute_def executeRequest_def fresh_collector_def
  NewCollector_def RecordRequest_def RecordError_def RecordStatusCode_def counter_Add_def
  exchange_ok_def exchange_network_error_def exchange_body_read_error_def Let_def

text \<open>What one call of \<open>executeRequest\<close> does to the three request counters.\<close>

lemma executeRequest_counters:
  "(totalRequests (executeRequest L H v c x), successRequests (executeRequest L H v c x),
    totalErrors (executeRequest L H v c x)) =
     (case createRequest_result x of
        None \<Rightarrow> (totalRequests c, successRequests c, totalErrors c + 1)
      | Some contentLength \<Rightarrow>
     (case Do_result x of
        None \<Rightarrow> (totalRequests c + 1, successRequests c, totalErrors c + 2)
      | Some resp \<Rightarrow>
     (case ReadAll_result x of
        None \<Rightarrow> (totalRequests c + 1, successRequests c, totalErrors c + 2)
      | Some body \<Rightarrow>
          if Validate L v resp body = None
            then (totalRequests c + 1, successRequests c + 1, totalErrors c)
          else (totalRequests c + 1, successRequests c, totalErrors c + 2))))"
  by (simp add: executeRequest_def RecordRequest_def RecordError_def RecordStatusCode_def Let_def
      split: option.splits)

text \<open>
  Claim C1 asks that successes and errors add up to the total in every snapshot.
  One request whose dispatch fails goes through \<open>RecordError\<close> and then through
  \<open>RecordRequest\<close> with \<open>success = false\<close>; both add one to \<open>totalErrors\<close>. The snapshot
  taken afterwards shows one request, no success and two errors.
\<close>

theorem network_error_counted_twice:
  "S_TotalRequests (fst (Collector_Snapshot list_histogram
       (sample_execute fresh_collector exchange_network_error) 0 0)) = 1
   \<and> S_SuccessRequests (fst (Collector_Snapshot list_histogram
       (sample_execute fresh_collector exchange_network_error) 0 0)) = 0
   \<and> S_TotalErrors (fst (Collector_Snapshot list_histogram
       (sample_execute fresh_collector exchange_network_error) 0 0)) = 2"
  by (simp add: Collector_Snapshot_def sample_run_defs)

text \<open>
  Claim C2 asks for the requests since the previous point divided by the seconds since the
  previous point. \<open>getLastTotalRequests\<close> returns 0 on both of its paths, so the numerator
  is the total since the start. In \<open>rps_calls\<close> the second point follows the first by one
  second, in which one request was recorded: its \<open>RPS\<close> is 3, the total, not 1.
\<close>

theorem time_point_rps_is_cumulative:
  "map Timestamp (timeSeries (calls list_histogram fresh_collector rps_calls))
      = [1000000000, 2000000000]
   \<and> map RPS (timeSeries (calls list_histogram fresh_collector rps_calls)) = [2, 3]
   \<and> totalRequests (calls list_histogram fresh_collector rps_calls) = 3"
  by (simp add: rps_calls_def fresh_collector_def NewCollector_def Collector_Snapshot_def
        recordTimePoint_def getLastTotalRequests_def Seconds_def RecordRequest_def Let_def)

text \<open>
  Claim C4, as stated: the status code is recorded for every request that does not fail with
  a network error, also when reading the body fails. In \<open>exchange_body_read_error\<close> a
  response with status 200 arrives and the body read fails: the error is counted under
  \<open>body_read\<close>, not under \<open>network\<close>, and no status code is recorded.
\<close>

theorem status_not_recorded_on_body_read_error_counterexample:
  "map_option StatusCode (Do_result exchange_body_read_error) = Some 200
   \<and> Mapping.lookup (errorsByType (sample_execute fresh_collector exchange_body_read_error))
        ''body_read'' = Some 1
   \<and> Mapping.lookup (errorsByType (sample_execute fresh_collector exchange_body_read_error))
        ''network'' = None
   \<and> Mapping.lookup (statusCodes (sample_execute fresh_collector exchange_body_read_error))
        200 = None"
  by (simp add: sample_run_defs sample_response_def lookup_default_empty)

lemma lookup_default_counter_Add:
  "Mapping.lookup_default 0 (counter_Add k m) k' =
     Mapping.lookup_default 0 m k' + (if k' = k then 1 else 0)"
  by (simp add: counter_Add_def lookup_default_update')

lemma statusCodes_RecordRequest [simp]:
  "statusCodes (RecordRequest H c lat r s ok) = statusCodes c"
  by (simp add: RecordRequest_def Let_def)

lemma statusCodes_RecordError [simp]:
  "statusCodes (RecordError c t) = statusCodes c"
  by (simp add: RecordError_def Let_def)

text \<open>
  Claim C4, amended: the status code of the response is recorded, once, exactly when the
  request was created, a response arrived and its body was read in full, whether validation
  then succeeds or fails. It is not recorded when the creation of the request fails, when
  dispatch fails with a network error, or when reading the body fails.
\<close>

theorem status_recorded_when_body_read:
  "statusCodes (executeRequest L H v c x) =
     (case (createRequest_result x, Do_result x, ReadAll_result x) of
        (Some contentLength, Some resp, Some body) \<Rightarrow>
          counter_Add (StatusCode resp) (statusCodes c)
      | _ \<Rightarrow> statusCodes c)
   \<and> Mapping.lookup_default 0 (statusCodes (executeRequest L H v c x)) code =
       Mapping.lookup_default 0 (statusCodes c) code
       + (if createRequest_result x \<noteq> None \<and> ReadAll_result x \<noteq> None
             \<and> map_option StatusCode (Do_result x) = Some code then 1 else 0)"
proof -
  have a: "statusCodes (executeRequest L H v c x) =
     (case (createRequest_result x, Do_result x, ReadAll_result x) of
        (Some contentLength, Some resp, Some body) \<Rightarrow>
          counter_Add (StatusCode resp) (statusCodes c)
      | _ \<Rightarrow> statusCodes c)"
    by (simp add: executeRequest_def RecordStatusCode_def Let_def split: option.splits)
  show ?thesis
    unfolding a
    by (auto simp: lookup_default_counter_Add split: option.splits)
qed

theorem status_recorded_when_body_read_witness:
  "Mapping.lookup_default 0 (statusCodes (sample_execute fresh_collector exchange_ok)) 200 = 1
   \<and> Mapping.lookup_default 0
        (statusCodes (sample_execute fresh_collector exchange_body_read_error)) 200 = 0
   \<and> Mapping.lookup_default 0
        (statusCodes (sample_execute fresh_collector exchange_network_error)) 200 = 0"
  using status_recorded_when_body_read [where x = exchange_ok and c = fresh_collector
      and L = toy_stdlib and H = list_histogram
      and v = "Validator_New toy_stdlib sample_validation" and code = 200]
    status_recorded_when_body_read [where x = exchange_body_read_error and c = fresh_collector
      and L = toy_stdlib and H = list_histogram
      and v = "Validator_New toy_stdlib sample_validation" and code = 200]
    status_recorded_when_body_read [where x = exchange_network_error and c = fresh_collector
      and L = toy_stdlib and H = list_histogram
      and v = "Validator_New toy_stdlib sample_validation" and code = 200]
  by (simp add: sample_execute_def fresh_collector_def NewCollector_def exchange_ok_def
        exchange_body_read_error_def exchange_network_error_def sample_response_def
        lookup_default_empty lookup_default_counter_Add)



section \<open>The ramp-up controller\<close>

text \<open>
  With no cancellation, a start between 0 and the end, at least one step and a step
  duration of at least a nanosecond, no send blocks and the controller activates the start
  plus as many truncated quotients as there are steps.
\<close>

lemma upto_append_step:
  "a \<le> b \<Longrightarrow> b \<le> c \<Longrightarrow> [a .. b - 1] @ [b .. c - 1] = [a .. c - 1]" for a b c :: int
  using upto_split2 [of a "b - 1" "c - 1"]
  by (cases "a = b") (auto simp: upto_split2)

lemma send_workerControl_room:
  assumes "int (length sent) + int (length ids) \<le> 2 * EndConcurrency rampCfg"
  shows "send_workerControl rampCfg sent ids = (sent @ ids, False)"
  using assms by (simp add: send_workerControl_def Let_def)

lemma ramp_step_within_end:
  assumes "0 \<le> d" and "currentConcurrency st + d \<le> EndConcurrency rampCfg"
    and "activated st = [0 .. currentConcurrency st - 1]" and "0 \<le> currentConcurrency st"
  shows "ramp_step rampCfg d st =
           (\<lparr> currentConcurrency = currentConcurrency st + d,
              activated = [0 .. currentConcurrency st + d - 1] \<rparr>, False)"
proof -
  have "int (length (activated st)) + int (length [currentConcurrency st .. currentConcurrency st + d - 1])
      \<le> 2 * EndConcurrency rampCfg"
    using assms by simp
  then have "send_workerControl rampCfg (activated st)
        [currentConcurrency st .. currentConcurrency st + d - 1]
      = (activated st @ [currentConcurrency st .. currentConcurrency st + d - 1], False)"
    by (rule send_workerControl_room)
  then show ?thesis
    using assms by (simp add: ramp_step_def Let_def upto_append_step)
qed

lemma ramp_loop_never_cancelled:
  assumes "0 \<le> d" and "currentConcurrency st + int n * d \<le> EndConcurrency rampCfg"
    and "activated st = [0 .. currentConcurrency st - 1]" and "0 \<le> currentConcurrency st"
  shows "ramp_loop (\<lambda>step. False) rampCfg d step n st =
           (\<lparr> currentConcurrency = currentConcurrency st + int n * d,
              activated = [0 .. currentConcurrency st + int n * d - 1] \<rparr>, False)"
  using assms
proof (induction n arbitrary: step st)
  case 0
  then show ?case by simp
next
  case (Suc n)
  let ?st = "\<lparr> currentConcurrency = currentConcurrency st + d,
              activated = [0 .. currentConcurrency st + d - 1] \<rparr>"
  have le: "currentConcurrency st + d \<le> EndConcurrency rampCfg"
  proof -
    have "int n * d \<ge> 0" using Suc.prems(1) by simp
    then show ?thesis using Suc.prems(2) by (simp add: algebra_simps)
  qed
  have step: "ramp_step rampCfg d st = (?st, False)"
    using Suc.prems(1) le Suc.prems(3,4) by (rule ramp_step_within_end)
  have "ramp_loop (\<lambda>step. False) rampCfg d (Suc step) n ?st =
           (\<lparr> currentConcurrency = currentConcurrency ?st + int n * d,
              activated = [0 .. currentConcurrency ?st + int n * d - 1] \<rparr>, False)"
    using Suc.prems by (intro Suc.IH) (simp_all add: algebra_simps)
  then show ?case
    by (simp add: step algebra_simps)
qed

lemma go_div_nonneg: "0 \<le> a \<Longrightarrow> 0 < b \<Longrightarrow> go_div a b = a div b"
  by (simp add: go_div_def sgn_if)

lemma runRampUp_final:
  assumes "RampUp_Enabled rampCfg" and "0 \<le> StartConcurrency rampCfg"
    and "StartConcurrency rampCfg \<le> EndConcurrency rampCfg"
    and "0 < Steps rampCfg" and "Steps rampCfg \<le> RampUp_Duration rampCfg"
  shows "activated_count (runRampUp (\<lambda>step. False) rampCfg) =
           Some (StartConcurrency rampCfg
                 + Steps rampCfg
                   * ((EndConcurrency rampCfg - StartConcurrency rampCfg) div Steps rampCfg))"
proof -
  let ?S = "Steps rampCfg" and ?a = "StartConcurrency rampCfg" and ?b = "EndConcurrency rampCfg"
  let ?d = "(?b - ?a) div ?S"
  have d: "go_div (?b - ?a) ?S = ?d" "0 \<le> ?d"
    using assms by (simp_all add: go_div_nonneg pos_imp_zdiv_nonneg_iff)
  have sd: "\<not> go_div (RampUp_Duration rampCfg) ?S \<le> 0"
    using assms by (simp add: go_div_nonneg pos_imp_zdiv_pos_iff not_le)
  have bound: "?a + int (nat ?S) * ?d \<le> ?b"
  proof -
    have "?S * ?d = (?b - ?a) - (?b - ?a) mod ?S"
      by (simp add: minus_mod_eq_mult_div)
    moreover have "0 \<le> (?b - ?a) mod ?S"
      using assms(4) by simp
    ultimately have "?S * ?d \<le> ?b - ?a"
      by linarith
    then show ?thesis using assms(4) by simp
  qed
  have init: "send_workerControl rampCfg [] [0 .. ?a - 1] = ([0 .. ?a - 1], False)"
    using send_workerControl_room [of "[]" "[0 .. ?a - 1]" rampCfg] assms(2,3) by simp
  have loop: "ramp_loop (\<lambda>step. False) rampCfg ?d 0 (nat ?S)
        \<lparr> currentConcurrency = ?a, activated = [0 .. ?a - 1] \<rparr>
      = (\<lparr> currentConcurrency = ?a + int (nat ?S) * ?d,
           activated = [0 .. ?a + int (nat ?S) * ?d - 1] \<rparr>, False)"
    using ramp_loop_never_cancelled
        [of ?d "\<lparr> currentConcurrency = ?a, activated = [0 .. ?a - 1] \<rparr>" "nat ?S" rampCfg 0]
      d(2) bound assms(2)
    by simp
  have nn: "0 \<le> ?a + ?S * ?d"
    using assms(2,4) d(2) by simp
  show ?thesis
    using assms sd nn
    by (simp add: runRampUp_def Let_def d init loop activated_count_def)
qed

text \<open>A ramp from -20 to 5 in one step: ten indices go through, the eleventh send blocks.\<close>

lemma runRampUp_negative_start_blocks:
  "runRampUp (\<lambda>step. False)
     \<lparr> RampUp_Enabled = True, StartConcurrency = - 20, EndConcurrency = 5,
       RampUp_Duration = Second, Steps = 1 \<rparr>
   = Blocks \<lparr> currentConcurrency = - 20,
              activated = [- 20, - 19, - 18, - 17, - 16, - 15, - 14, - 13, - 12, - 11] \<rparr>"
  by (simp add: runRampUp_def go_div_def Second_def ramp_step_def send_workerControl_def
        upto_rec1 Let_def)

text \<open>
  Claim C3 asks that the ramp ends with \<open>EndConcurrency\<close> workers activated, the last step
  taking the remainder of the division. The controller adds the truncated quotient
  \<open>(15 - 10) / 2 = 2\<close> at each of the two steps and stops at 14 of the 15 workers.
\<close>

theorem ramp_up_stops_short_of_end:
  "runRampUp (\<lambda>step. False) ramp_10_to_15
     = Ramped \<lparr> currentConcurrency = 14,
                activated = [0, 1, 2, 3, 4, 5, 6, 7, 8, 9, 10, 11, 12, 13] \<rparr>
   \<and> activated_count (runRampUp (\<lambda>step. False) ramp_10_to_15) = Some 14
   \<and> EndConcurrency ramp_10_to_15 = 15"
  by (simp add: runRampUp_def ramp_10_to_15_def go_div_def Second_def ramp_step_def
        send_workerControl_def activated_count_def eval_nat_numeral upto_rec1 Let_def)


section \<open>The rate limiter and the generator\<close>












end
